theory Spec2Isabelle
  imports Main "HOL-Library.Log_Nat"
begin

section \<open>Strings as Python sees them\<close>

text \<open>
  A Python \<open>str\<close> is modelled as an Isabelle \<open>string\<close>: a list of characters whose
  code points lie below 256. The helpers below are the \<open>str\<close> methods the scripts call.
\<close>

text \<open>\<open>content.split('\n')\<close>: never empty, a trailing newline gives a last empty line.\<close>

fun split_lines :: "string \<Rightarrow> string list" where
  "split_lines [] = [[]]"
| "split_lines (c # cs) =
     (if c = CHR 0x0A then [] # split_lines cs
      else (case split_lines cs of
              [] \<Rightarrow> [[c]]
            | l # ls \<Rightarrow> (c # l) # ls))"

text \<open>\<open>enumerate(lines, 1)\<close>.\<close>

definition enumerate1 :: "'a list \<Rightarrow> (nat \<times> 'a) list" where
  "enumerate1 xs = zip [1 ..< Suc (length xs)] xs"

text \<open>\<open>s.startswith(p)\<close> and \<open>sub in s\<close>.\<close>

fun startswith :: "string \<Rightarrow> string \<Rightarrow> bool" where
  "startswith s [] = True"
| "startswith [] (p # ps) = False"
| "startswith (c # cs) (p # ps) = (c = p \<and> startswith cs ps)"

fun contains :: "string \<Rightarrow> string \<Rightarrow> bool" where
  "contains [] sub = (sub = [])"
| "contains (c # cs) sub = (startswith (c # cs) sub \<or> contains cs sub)"

text \<open>\<open>s.lower()\<close> on code points below 256: A-Z and the Latin-1 capitals.\<close>

definition lower_char :: "char \<Rightarrow> char" where
  "lower_char c =
     (let n = (of_char c :: nat)
      in if (65 \<le> n \<and> n \<le> 90) \<or> (192 \<le> n \<and> n \<le> 222 \<and> n \<noteq> 215)
         then char_of (n + 32) else c)"

definition lower :: "string \<Rightarrow> string" where
  "lower s = map lower_char s"

text \<open>\<open>s.strip()\<close>: the characters \<open>str.isspace\<close> accepts below code point 256.\<close>

definition isspace :: "char \<Rightarrow> bool" where
  "isspace c =
     (let n = (of_char c :: nat)
      in (9 \<le> n \<and> n \<le> 13) \<or> (28 \<le> n \<and> n \<le> 32) \<or> n = 133 \<or> n = 160)"

definition strip :: "string \<Rightarrow> string" where
  "strip s = rev (dropWhile isspace (rev (dropWhile isspace s)))"

text \<open>\<open>s.count('\n')\<close>.\<close>

definition count_newlines :: "string \<Rightarrow> nat" where
  "count_newlines s = length (filter (\<lambda>c. c = CHR 0x0A) s)"

section \<open>The \<open>re\<close> module\<close>

text \<open>
  The scripts write their patterns as raw string literals. A backslash cannot stand
  inside an Isabelle string literal and an apostrophe cannot end one, so a pattern is
  written here with \<open>~\<close> for the backslash and a backquote for the apostrophe, neither of
  which occurs in any pattern of the scripts, and \<open>raw\<close> puts the two characters back.
\<close>

definition raw :: "string \<Rightarrow> string" where
  "raw s = map (\<lambda>c. if c = CHR ''~'' then CHR 0x5C else if c = CHR 0x60 then CHR 0x27 else c) s"

text \<open>
  The scripts reach regular expressions only through \<open>re.search\<close> and \<open>re.finditer\<close> of
  the standard library. Both are taken as they are: a pattern is the source text of
  the regular expression, copied from the script, and the library is a value of
  \<open>re_module\<close> that every function of the model receives. A match object carries what
  the scripts read from it: \<open>start()\<close>, \<open>group()\<close> and \<open>group(1)\<close>.
\<close>

record re_match =
  m_start :: nat
  m_group :: string
  m_group1 :: string

record re_module =
  re_search :: "string \<Rightarrow> string \<Rightarrow> bool \<Rightarrow> bool"
  re_finditer :: "string \<Rightarrow> string \<Rightarrow> re_match list"

text \<open>
  A small instance for running the model on examples: it reads a pattern as literal
  text (no metacharacters), which is what \<open>re\<close> does for such patterns. The third
  argument of \<open>re_search\<close> is the \<open>re.IGNORECASE\<close> flag.
\<close>

fun literal_matches :: "nat \<Rightarrow> string \<Rightarrow> string \<Rightarrow> re_match list" where
  "literal_matches i pat [] = []"
| "literal_matches i pat (c # cs) =
     (if pat \<noteq> [] \<and> startswith (c # cs) pat
      then \<lparr>m_start = i, m_group = pat, m_group1 = []\<rparr>
             # literal_matches (i + length pat) pat (drop (length pat) (c # cs))
      else literal_matches (Suc i) pat cs)"

definition literal_re :: re_module where
  "literal_re =
     \<lparr>re_search = (\<lambda>pat s ignorecase.
        if ignorecase then contains (lower s) (lower pat) else contains s pat),
      re_finditer = (\<lambda>pat s. literal_matches 0 pat s)\<rparr>"

section \<open>Python numbers\<close>

text \<open>
  Exceptions are values: a function that can raise returns \<open>exn + 'a\<close>, with the
  exception on the left. An \<open>OSError\<close> keeps its \<open>errno\<close> and its text; the exceptions
  that a script never prints keep no text.
\<close>

datatype exn =
    OSError nat string
  | OverflowError string
  | ZeroDivisionError string
  | RuntimeError string
  | TypeError
  | ValueError
  | AttributeError
  | KeyError

definition exn_str :: "exn \<Rightarrow> string" where
  "exn_str e =
     (case e of
        OSError n s \<Rightarrow> s
      | OverflowError s \<Rightarrow> s
      | ZeroDivisionError s \<Rightarrow> s
      | RuntimeError s \<Rightarrow> s
      | TypeError \<Rightarrow> ''TypeError''
      | ValueError \<Rightarrow> ''ValueError''
      | AttributeError \<Rightarrow> ''AttributeError''
      | KeyError \<Rightarrow> ''KeyError'')"

text \<open>
  Sequencing: the first exception ends the computation, as a raise does.
\<close>

definition bind_exn :: "exn + 'a \<Rightarrow> ('a \<Rightarrow> exn + 'b) \<Rightarrow> exn + 'b" where
  "bind_exn r f = (case r of Inl e \<Rightarrow> Inl e | Inr x \<Rightarrow> f x)"

fun map_exn :: "('a \<Rightarrow> exn + 'b) \<Rightarrow> 'a list \<Rightarrow> exn + 'b list" where
  "map_exn f [] = Inr []"
| "map_exn f (x # xs) =
     (case f x of
        Inl e \<Rightarrow> Inl e
      | Inr y \<Rightarrow> (case map_exn f xs of Inl e \<Rightarrow> Inl e | Inr ys \<Rightarrow> Inr (y # ys)))"

text \<open>
  A Python \<open>float\<close> is an IEEE 754 binary64 number: a rational of the binary64 grid, an
  infinity or a NaN (the sign of zero is not kept). \<open>round_double\<close> rounds a rational
  to the nearest binary64 number, ties to even: 53 significant bits, the smallest
  exponent at \<open>2 ^ - 1074\<close>, and an infinity once the rounded magnitude reaches
  \<open>2 ^ 1024\<close>. \<open>ilog2 x\<close> is the exponent \<open>e\<close> with \<open>2 ^ e \<le> x < 2 ^ (e + 1)\<close>.
\<close>

datatype pyfloat = Finite rat | PInf | NInf | NaN

definition ilog2 :: "rat \<Rightarrow> int" where
  "ilog2 x =
     (let (a, b) = quotient_of x;
          d = bitlen a - bitlen b
      in if power_int 2 d \<le> x then d else d - 1)"

definition round_half_even :: "rat \<Rightarrow> int" where
  "round_half_even x =
     (let f = \<lfloor>x\<rfloor>; r = x - of_int f
      in if r < 1 / 2 then f
         else if 1 / 2 < r then f + 1
         else if even f then f else f + 1)"

definition round_double :: "rat \<Rightarrow> pyfloat" where
  "round_double x =
     (if x = 0 then Finite 0
      else let a = \<bar>x\<bar>;
               e = max (ilog2 a) (- 1022);
               q = power_int 2 (e - 52);
               r = of_int (round_half_even (a / q)) * q
           in if 2 ^ 1024 \<le> r then (if 0 < x then PInf else NInf)
              else Finite (if 0 < x then r else - r))"


text \<open>
  Converting an \<open>int\<close> rounds it the same way and raises \<open>OverflowError\<close> where the
  result would be infinite.
\<close>

definition int_to_float :: "int \<Rightarrow> exn + pyfloat" where
  "int_to_float n =
     (case round_double (of_int n) of
        Finite r \<Rightarrow> Inr (Finite r)
      | _ \<Rightarrow> Inl (OverflowError ''int too large to convert to float''))"

text \<open>Float addition, division (\<open>a / b\<close> raises on a zero divisor) and comparison.\<close>

fun float_add :: "pyfloat \<Rightarrow> pyfloat \<Rightarrow> pyfloat" where
  "float_add (Finite a) (Finite b) = round_double (a + b)"
| "float_add NaN y = NaN"
| "float_add x NaN = NaN"
| "float_add PInf NInf = NaN"
| "float_add NInf PInf = NaN"
| "float_add PInf y = PInf"
| "float_add x PInf = PInf"
| "float_add NInf y = NInf"
| "float_add x NInf = NInf"

fun float_div :: "pyfloat \<Rightarrow> pyfloat \<Rightarrow> exn + pyfloat" where
  "float_div x (Finite b) =
     (if b = 0 then Inl (ZeroDivisionError ''float division by zero'')
      else Inr (case x of
                  Finite a \<Rightarrow> round_double (a / b)
                | PInf \<Rightarrow> (if 0 < b then PInf else NInf)
                | NInf \<Rightarrow> (if 0 < b then NInf else PInf)
                | NaN \<Rightarrow> NaN))"
| "float_div (Finite a) PInf = Inr (Finite 0)"
| "float_div (Finite a) NInf = Inr (Finite 0)"
| "float_div x y = Inr NaN"

fun float_lt :: "pyfloat \<Rightarrow> pyfloat \<Rightarrow> bool" where
  "float_lt (Finite a) (Finite b) = (a < b)"
| "float_lt NaN y = False"
| "float_lt x NaN = False"
| "float_lt x NInf = False"
| "float_lt NInf y = True"
| "float_lt PInf y = False"
| "float_lt x PInf = True"


text \<open>\<open>min(x, y)\<close> keeps its first argument unless the second is smaller.\<close>

definition py_min :: "pyfloat \<Rightarrow> pyfloat \<Rightarrow> pyfloat" where
  "py_min x y = (if float_lt y x then y else x)"

text \<open>
  \<open>sum\<close> starts from the integer \<open>0\<close> and adds the items from the left, each addition
  rounded, as CPython does up to version 3.11 (later versions carry a correction term
  along); over no items it returns that integer. \<open>truediv\<close> is \<open>/\<close> with an \<open>int\<close> on
  the right: an \<open>int\<close> numerator is divided exactly and rounded once, a \<open>float\<close>
  numerator has the divisor converted first.
\<close>

datatype number = IntNum int | FloatNum pyfloat

definition py_sum :: "pyfloat list \<Rightarrow> number" where
  "py_sum ws =
     foldl (\<lambda>acc w. FloatNum (float_add (case acc of IntNum i \<Rightarrow> Finite (of_int i) | FloatNum f \<Rightarrow> f) w))
           (IntNum 0) ws"

fun truediv :: "number \<Rightarrow> int \<Rightarrow> exn + pyfloat" where
  "truediv (IntNum a) n =
     (if n = 0 then Inl (ZeroDivisionError ''division by zero'')
      else (case round_double (of_int a / of_int n) of
              Finite r \<Rightarrow> Inr (Finite r)
            | _ \<Rightarrow> Inl (OverflowError ''integer division result too large for a float'')))"
| "truediv (FloatNum f) n =
     (case int_to_float n of
        Inl e \<Rightarrow> Inl e
      | Inr d \<Rightarrow> float_div f d)"

text \<open>A float that is not negative: a rational from 0 on, or the positive infinity.\<close>

definition nonneg_float :: "pyfloat \<Rightarrow> bool" where
  "nonneg_float f = (case f of Finite r \<Rightarrow> 0 \<le> r | PInf \<Rightarrow> True | NInf \<Rightarrow> False | NaN \<Rightarrow> False)"

section \<open>Files and effects\<close>

text \<open>
  The file system is reached through \<open>Path\<close> methods only, and nothing is written to
  it. \<open>resolve\<close>, \<open>stat\<close> and \<open>read_text\<close> either raise or answer; \<open>rglob\<close> is taken as the
  list of paths it yields.
\<close>

record filesystem =
  fs_resolve :: "string \<Rightarrow> exn + string"
  fs_stat :: "string \<Rightarrow> exn + unit"
  fs_rglob :: "string \<Rightarrow> string \<Rightarrow> string list"
  fs_read_text :: "string \<Rightarrow> exn + string"

text \<open>
  \<open>Path.exists()\<close> calls \<open>stat\<close>. It answers \<open>False\<close> when \<open>stat\<close> raises an \<open>OSError\<close> with
  one of the four error numbers that \<open>pathlib\<close> ignores, or a \<open>ValueError\<close>; any other
  exception of \<open>stat\<close> leaves \<open>exists\<close> as it is (\<open>pathlib\<close> of CPython 3.11; the numbers
  are those of Linux).
\<close>

definition ENOENT :: nat where "ENOENT = 2"
definition EBADF :: nat where "EBADF = 9"
definition EACCES :: nat where "EACCES = 13"
definition ENOTDIR :: nat where "ENOTDIR = 20"
definition ELOOP :: nat where "ELOOP = 40"

definition ignored_errno :: "nat \<Rightarrow> bool" where
  "ignored_errno n = (n = ENOENT \<or> n = ENOTDIR \<or> n = EBADF \<or> n = ELOOP)"

definition path_exists :: "filesystem \<Rightarrow> string \<Rightarrow> exn + bool" where
  "path_exists fs p =
     (case fs_stat fs p of
        Inr st \<Rightarrow> Inr True
      | Inl (OSError n s) \<Rightarrow> (if ignored_errno n then Inr False else Inl (OSError n s))
      | Inl ValueError \<Rightarrow> Inr False
      | Inl e \<Rightarrow> Inl e)"

text \<open>
  What a script does to the outside is kept in the world it runs in: the file system,
  and the log of its effects in the order they happen, which are a directory walk, a
  file read, a line on standard error, a document on standard output (\<open>'d\<close> is the
  script's own type of document) and the traceback of an exception that nothing
  catches. A function of a script takes the world and returns it with its result.
\<close>

datatype 'd effect =
    Rglob string string
  | Read_text string
  | Stderr string
  | Stdout 'd
  | Traceback exn

record 'd world =
  w_fs :: filesystem
  w_log :: "'d effect list"

definition emit :: "'d effect list \<Rightarrow> 'd world \<Rightarrow> 'd world" where
  "emit es w = w\<lparr>w_log := w_log w @ es\<rparr>"

definition is_read :: "'d effect \<Rightarrow> bool" where
  "is_read e = (case e of Read_text p \<Rightarrow> True | _ \<Rightarrow> False)"

definition is_walk :: "'d effect \<Rightarrow> bool" where
  "is_walk e = (case e of Rglob p pat \<Rightarrow> True | _ \<Rightarrow> False)"

text \<open>
  \<open>Path.parts\<close>, \<open>Path.name\<close> and \<open>Path.suffix\<close> of a POSIX path: empty components and
  \<open>.\<close> are dropped, and the root is \<open>/\<close>, or \<open>//\<close> when the path starts with exactly two
  slashes.
\<close>

fun split_slash :: "string \<Rightarrow> string list" where
  "split_slash [] = [[]]"
| "split_slash (c # cs) =
     (if c = CHR ''/'' then [] # split_slash cs
      else (case split_slash cs of
              [] \<Rightarrow> [[c]]
            | l # ls \<Rightarrow> (c # l) # ls))"

definition components :: "string \<Rightarrow> string list" where
  "components p = filter (\<lambda>s. s \<noteq> [] \<and> s \<noteq> ''.'') (split_slash p)"



definition name :: "string \<Rightarrow> string" where
  "name p = (if components p = [] then [] else last (components p))"

definition suffix :: "string \<Rightarrow> string" where
  "suffix p =
     (let nm = name p;
          after = length (takeWhile (\<lambda>c. c \<noteq> CHR ''.'') (rev nm))
      in if CHR ''.'' \<in> set nm \<and> 0 < length nm - after - 1 \<and> 0 < after
         then drop (length nm - after - 1) nm else [])"


section \<open>dgts-validator.py\<close>

subsection \<open>Tables\<close>

definition GAMING_PATTERNS :: "(string \<times> (string \<times> string) list) list" where
  "GAMING_PATTERNS =
     [(''test_gaming'',
       [(raw ''assert~s+True~s*$'',
         ''Meaningless assertion: assert True''),
        (raw ''assert~s+1~s*==~s*1'',
         ''Tautological test: assert 1 == 1''),
        (raw ''assert~s+[`~\"].*[`~\"]~s*==~s*[`~\"].*[`~\"]'',
         ''String equality that always passes''),
        (raw ''@pytest~.mark~.skip'',
         ''Skipped test hiding failures''),
        (raw ''@unittest~.skip'',
         ''Skipped test hiding failures''),
        (raw ''return~s*[`~\"]mock'',
         ''Mock data return''),
        (raw ''return~s*~{~s*[`~\"]fake'',
         ''Fake data return'')]),
      (''code_gaming'',
       [(raw ''#~s*validation'',
         ''Commented validation rule''),
        (raw ''if~s+False~s*:'',
         ''Disabled code block''),
        (raw ''pass~s*#~s*TODO'',
         ''Stub function with TODO''),
        (raw ''void~s+_error'',
         ''Error silencing pattern''),
        (raw ''except~s*:~s*pass'',
         ''Silent exception swallowing''),
        (raw ''except.*:~s*~.~.~.'',
         ''Ellipsis exception handler'')]),
      (''feature_faking'',
       [(raw ''def~s+~w+~([^)]*~)~s*:~s*pass~s*$'',
         ''Empty function implementation''),
        (raw ''return~s*None~s*#'',
         ''None return with comment (likely stub)''),
        (raw ''raise~s+NotImplementedError'',
         ''NotImplementedError (incomplete)''),
        (raw ''TODO:~s*implement'',
         ''TODO marker for unimplemented code''),
        (raw ''FIXME:'',
         ''FIXME marker'')]),
      (''mock_patterns'',
       [(raw ''mock_data~s*='',
         ''Mock data variable''),
        (raw ''fake_~w+~s*='',
         ''Fake variable naming''),
        (raw ''dummy_~w+~s*='',
         ''Dummy variable naming''),
        (raw ''test@test~.com'',
         ''Placeholder test email''),
        (raw ''example@example~.com'',
         ''Placeholder example email''),
        (raw ''[`~\"]John~s+Doe[`~\"]'',
         ''Placeholder name''),
        (raw ''[`~\"]Jane~s+Doe[`~\"]'',
         ''Placeholder name''),
        (raw ''lorem~s+ipsum'',
         ''Lorem ipsum placeholder''),
        (raw ''from~s+faker~s+import'',
         ''Faker library in production code'')])]"



record violation =
  vi_file :: string
  vi_line :: nat
  vi_category :: string
  vi_pattern :: string
  vi_message :: string
  vi_content :: string

subsection \<open>Scanning\<close>

text \<open>
  One line against every pattern, in the order of the table; the search ignores case.
\<close>

definition dgts_scan_line :: "re_module \<Rightarrow> string \<Rightarrow> nat \<times> string \<Rightarrow> violation list" where
  "dgts_scan_line re filepath = (\<lambda>(line_num, line).
     concat (map (\<lambda>(category, patterns).
       concat (map (\<lambda>(pattern, message).
         if re_search re pattern line True
         then [\<lparr>vi_file = filepath, vi_line = line_num, vi_category = category,
                vi_pattern = pattern, vi_message = message,
                vi_content = take 80 (strip line)\<rparr>]
         else []) patterns)) GAMING_PATTERNS))"

text \<open>
  \<open>scan_file\<close> reads the file once. Only the read can raise inside the \<open>try\<close>; the
  handler prints a warning and the function returns the list it has, which is empty.
\<close>

definition dgts_scan_file ::
  "re_module \<Rightarrow> string \<Rightarrow> 'd world \<Rightarrow> violation list \<times> 'd world" where
  "dgts_scan_file re filepath w =
     (case fs_read_text (w_fs w) filepath of
        Inl e \<Rightarrow>
          ([], emit [Read_text filepath,
                     Stderr (''Warning: Could not scan '' @ filepath @ '': '' @ exn_str e)] w)
      | Inr content \<Rightarrow>
          (concat (map (dgts_scan_line re filepath) (enumerate1 (split_lines content))),
           emit [Read_text filepath] w))"



subsection \<open>The gaming score\<close>

definition weights :: "string \<rightharpoonup> pyfloat" where
  "weights = [''test_gaming'' \<mapsto> round_double (3 / 10),
              ''code_gaming'' \<mapsto> round_double (25 / 100),
              ''feature_faking'' \<mapsto> round_double (25 / 100),
              ''mock_patterns'' \<mapsto> round_double (2 / 10)]"

definition weight_of :: "string \<Rightarrow> pyfloat" where
  "weight_of category =
     (case weights category of None \<Rightarrow> round_double (2 / 10) | Some w \<Rightarrow> w)"

definition calculate_gaming_score :: "violation list \<Rightarrow> int \<Rightarrow> exn + pyfloat" where
  "calculate_gaming_score violations total_files =
     (if total_files = 0 then Inr (Finite 0)
      else let weighted_score = py_sum (map (\<lambda>v. weight_of (vi_category v)) violations)
           in (case truediv weighted_score (max total_files 1) of
                 Inl e \<Rightarrow> Inl e
               | Inr q \<Rightarrow> Inr (py_min (Finite 1) q)))"

subsection \<open>The program\<close>





section \<open>zero-tolerance-validator.py\<close>

subsection \<open>Tables\<close>

definition ZERO_TOLERANCE_PATTERNS ::
  "(string \<times> (string \<times> (string \<times> string) list) list) list" where
  "ZERO_TOLERANCE_PATTERNS =
     [(''typescript'',
       [(''console_log'',
         [(raw ''console~.(log|error|warn|info|debug)~s*~('',
           ''console.* statement - use proper logger'')]),
        (''error_handling'',
         [(raw ''catch~s*~{'',
           ''Empty catch block without error parameter''),
          (raw ''catch~s*~(~s*_'',
           ''Unused error parameter (prefixed with _)''),
          (raw ''catch~s*~([^)]*~)~s*~{~s*~}'',
           ''Empty catch block''),
          (raw ''void~s+_?error'',
           ''Void error anti-pattern'')]),
        (''type_safety'',
         [(raw '':~s*any~b'',
           raw ''Explicit `any` type - use proper typing''),
          (raw ''as~s+any~b'',
           raw ''Type assertion to `any`''),
          (raw ''@ts-ignore'',
           ''@ts-ignore comment - fix the type error''),
          (raw ''@ts-nocheck'',
           ''@ts-nocheck - type checking disabled'')])]),
      (''python'',
       [(''error_handling'',
         [(raw ''except~s*:~s*$'',
           ''Bare except clause''),
          (raw ''except~s*:~s*pass'',
           ''Silent exception swallowing''),
          (raw ''except.*:~s*~.~.~.'',
           ''Ellipsis exception handler'')]),
        (''debug_statements'',
         [(raw ''^~s*print~s*~((?!.*#~s*debug)'',
           ''Print statement (use logging)''),
          (raw ''breakpoint~s*~(~)'',
           ''Breakpoint left in code''),
          (raw ''pdb~.set_trace~(~)'',
           ''PDB debugger left in code''),
          (raw ''import~s+pdb'',
           ''PDB import left in code'')]),
        (''type_safety'',
         [(raw ''#~s*type:~s*ignore'',
           ''Type ignore comment''),
          (raw ''Any~s*~]'',
           ''Any type in annotation'')])]),
      (''javascript'',
       [(''console_log'',
         [(raw ''console~.(log|error|warn|info|debug)~s*~('',
           ''console.* statement'')]),
        (''error_handling'',
         [(raw ''catch~s*~{'',
           ''Empty catch block without error parameter''),
          (raw ''catch~s*~([^)]*~)~s*~{~s*~}'',
           ''Empty catch block'')])])]"

definition EXT_TO_LANG :: "(string \<times> string) list" where
  "EXT_TO_LANG =
     [(''.ts'', ''typescript''), (''.tsx'', ''typescript''), (''.js'', ''javascript''),
      (''.jsx'', ''javascript''), (''.py'', ''python'')]"


record zt_violation =
  zv_file :: string
  zv_line :: nat
  zv_category :: string
  zv_message :: string
  zv_content :: string
  zv_severity :: string

subsection \<open>Scanning\<close>

definition get_language :: "string \<Rightarrow> string option" where
  "get_language filepath = map_of EXT_TO_LANG (lower (suffix filepath))"

definition zt_scan_line ::
  "re_module \<Rightarrow> (string \<times> (string \<times> string) list) list \<Rightarrow> string \<Rightarrow> nat \<times> string
   \<Rightarrow> zt_violation list" where
  "zt_scan_line re patterns filepath = (\<lambda>(line_num, line).
     concat (map (\<lambda>(category, pattern_list).
       concat (map (\<lambda>(pattern, message).
         if re_search re pattern line False
         then [\<lparr>zv_file = filepath, zv_line = line_num, zv_category = category,
                zv_message = message, zv_content = take 80 (strip line),
                zv_severity = ''CRITICAL''\<rparr>]
         else []) pattern_list)) patterns))"

text \<open>A file whose extension names no language is not read at all.\<close>

definition zt_scan_file ::
  "re_module \<Rightarrow> string \<Rightarrow> 'd world \<Rightarrow> zt_violation list \<times> 'd world" where
  "zt_scan_file re filepath w =
     (case get_language filepath of
        None \<Rightarrow> ([], w)
      | Some lang \<Rightarrow>
          (let patterns = (case map_of ZERO_TOLERANCE_PATTERNS lang of
                             None \<Rightarrow> [] | Some ps \<Rightarrow> ps)
           in case fs_read_text (w_fs w) filepath of
                Inl e \<Rightarrow>
                  ([], emit [Read_text filepath,
                             Stderr (''Warning: Could not scan '' @ filepath @ '': ''
                                     @ exn_str e)] w)
              | Inr content \<Rightarrow>
                  (concat (map (zt_scan_line re patterns filepath)
                               (enumerate1 (split_lines content))),
                   emit [Read_text filepath] w)))"




subsection \<open>The program\<close>




section \<open>compare\_to\_captured.py\<close>

subsection \<open>Captured reference data\<close>

text \<open>
  \<open>load_captured_data\<close> fills a dictionary with what \<open>json.load\<close> reads from the files
  of the captured directory, so the reference data is any JSON value: \<open>None\<close>, a
  \<open>bool\<close>, an \<open>int\<close>, a \<open>float\<close>, a \<open>str\<close>, a \<open>list\<close> or a \<open>dict\<close> with string keys (in the
  order of insertion, each key once). The operations below are the ones the checks
  apply to such a value, with the exception Python raises when the value is of the
  wrong kind.
\<close>

datatype json =
    JNull
  | JBool bool
  | JInt int
  | JFloat pyfloat
  | JStr string
  | JList "json list"
  | JDict "(string \<times> json) list"

text \<open>\<open>d.get(key, default)\<close> on a dictionary, and on any value, which may have no \<open>get\<close>.\<close>

definition dict_get :: "(string \<times> json) list \<Rightarrow> string \<Rightarrow> json \<Rightarrow> json" where
  "dict_get d k dflt = (case map_of d k of None \<Rightarrow> dflt | Some v \<Rightarrow> v)"

definition json_get :: "json \<Rightarrow> string \<Rightarrow> json \<Rightarrow> exn + json" where
  "json_get j k dflt = (case j of JDict d \<Rightarrow> Inr (dict_get d k dflt) | _ \<Rightarrow> Inl AttributeError)"

text \<open>\<open>for x in j\<close>: the items of a list, the keys of a dictionary, the characters of a string.\<close>

definition json_iter :: "json \<Rightarrow> exn + json list" where
  "json_iter j =
     (case j of
        JList xs \<Rightarrow> Inr xs
      | JDict d \<Rightarrow> Inr (map (\<lambda>(k, v). JStr k) d)
      | JStr s \<Rightarrow> Inr (map (\<lambda>c. JStr [c]) s)
      | _ \<Rightarrow> Inl TypeError)"

text \<open>\<open>key in j\<close>, \<open>j[key]\<close> and \<open>j.lower()\<close>.\<close>

definition json_contains :: "string \<Rightarrow> json \<Rightarrow> exn + bool" where
  "json_contains k j =
     (case j of
        JDict d \<Rightarrow> Inr (k \<in> set (map fst d))
      | JList xs \<Rightarrow> Inr (JStr k \<in> set xs)
      | JStr s \<Rightarrow> Inr (contains s k)
      | _ \<Rightarrow> Inl TypeError)"

definition json_item :: "json \<Rightarrow> string \<Rightarrow> exn + json" where
  "json_item j k =
     (case j of
        JDict d \<Rightarrow> (case map_of d k of None \<Rightarrow> Inl KeyError | Some v \<Rightarrow> Inr v)
      | _ \<Rightarrow> Inl TypeError)"

definition json_lower :: "json \<Rightarrow> exn + string" where
  "json_lower j = (case j of JStr s \<Rightarrow> Inr (lower s) | _ \<Rightarrow> Inl AttributeError)"

text \<open>
  \<open>padding, count = item\<close>: the item is iterated and must give exactly two values.
\<close>

definition unpack2 :: "json \<Rightarrow> exn + json \<times> json" where
  "unpack2 j =
     (case json_iter j of
        Inl e \<Rightarrow> Inl e
      | Inr [a, b] \<Rightarrow> Inr (a, b)
      | Inr xs \<Rightarrow> Inl ValueError)"

subsection \<open>Issues and results\<close>

text \<open>An issue is the dictionary the checks build; its \<open>type\<close> is a string.\<close>

record issue =
  i_type :: string
  i_line :: nat
  i_issue :: string
  i_found :: string
  i_suggestion :: string

record summary =
  errors :: nat
  warnings :: nat
  suggestions :: nat

record validation =
  v_file :: string
  v_issues :: "issue list"
  v_passed :: bool
  v_summary :: summary

subsection \<open>Extraction\<close>

definition hex_pattern :: string where
  "hex_pattern = raw ''#([0-9a-fA-F]{6}|[0-9a-fA-F]{3})(?![0-9a-fA-F])''"

definition tailwind_pattern :: string where
  "tailwind_pattern =
     raw ''(?:bg|text|border)-(?:gray|blue|red|green|yellow|purple|pink|indigo|orange|white|black)-~d{2,3}''"

definition matches_by_line :: "re_module \<Rightarrow> string \<Rightarrow> string \<Rightarrow> (nat \<times> string) list" where
  "matches_by_line re pat content =
     concat (map (\<lambda>(i, line). map (\<lambda>m. (i, m_group m)) (re_finditer re pat line))
                 (enumerate1 (split_lines content)))"

definition extract_colors_from_code :: "re_module \<Rightarrow> string \<Rightarrow> (nat \<times> string) list" where
  "extract_colors_from_code re content = matches_by_line re hex_pattern content"

definition extract_tailwind_colors :: "re_module \<Rightarrow> string \<Rightarrow> (nat \<times> string) list" where
  "extract_tailwind_colors re content = matches_by_line re tailwind_pattern content"

subsection \<open>The three checks\<close>

text \<open>
  The palette: the lower-cased \<open>hex\<close> of every entry of the three colour lists that has
  one. The three lists are fetched first, then walked in order.
\<close>

definition hex_of :: "json \<Rightarrow> exn + string list" where
  "hex_of c =
     bind_exn (json_contains ''hex'' c) (\<lambda>present.
       if present
       then bind_exn (json_item c ''hex'') (\<lambda>h. bind_exn (json_lower h) (\<lambda>s. Inr [s]))
       else Inr [])"

definition hexes_of :: "json \<Rightarrow> exn + string list" where
  "hexes_of color_list =
     bind_exn (json_iter color_list) (\<lambda>cs.
       bind_exn (map_exn hex_of cs) (\<lambda>hs. Inr (concat hs)))"

definition good_hex_colors :: "json \<Rightarrow> exn + string set" where
  "good_hex_colors captured_colors =
     bind_exn (json_get captured_colors ''backgrounds'' (JList [])) (\<lambda>backgrounds.
     bind_exn (json_get captured_colors ''texts'' (JList [])) (\<lambda>texts.
     bind_exn (json_get captured_colors ''borders'' (JList [])) (\<lambda>borders.
     bind_exn (map_exn hexes_of [backgrounds, texts, borders]) (\<lambda>hs.
       Inr (set (concat hs))))))"

definition boss_prefixes :: "string list" where
  "boss_prefixes = [''space-'', ''neon-'', ''gray-'']"

definition is_boss :: "string \<Rightarrow> bool" where
  "is_boss color_class =
     list_ex (\<lambda>prefix. contains color_class (''-'' @ prefix)
                       \<or> startswith color_class (''bg-'' @ prefix)) boss_prefixes"

definition check_color_consistency :: "re_module \<Rightarrow> string \<Rightarrow> json \<Rightarrow> exn + issue list" where
  "check_color_consistency re content captured_colors =
     bind_exn (good_hex_colors captured_colors) (\<lambda>good.
      let hex_colors = extract_colors_from_code re content;
          hex_issues = concat (map (\<lambda>(line, color).
             if lower color \<notin> good
             then [\<lparr>i_type = ''warning'', i_line = line,
                    i_issue = ''Hardcoded color not in captured palette'',
                    i_found = color,
                    i_suggestion = ''Use Tailwind class from captured colors''\<rparr>]
             else []) hex_colors);
          tailwind_colors = extract_tailwind_colors re content;
          tailwind_issues = concat (map (\<lambda>(line, color_class).
             if \<not> is_boss color_class \<and> \<not> contains color_class ''gray-''
             then [\<lparr>i_type = ''warning'', i_line = line,
                    i_issue = ''Non-BOSS color class'',
                    i_found = color_class,
                    i_suggestion = ''Use space-*, neon-*, or gray-* colors''\<rparr>]
             else []) tailwind_colors)
      in Inr (hex_issues @ tailwind_issues))"

definition card_pattern :: string where
  "card_pattern = raw ''rounded-xl.*border.*p-[46]''"

definition button_pattern :: string where
  "button_pattern = raw ''<button[^>]*className=[\"~`][^\"~`]*[\"~`]''"

text \<open>The catalogue of components is an argument that the check never reads.\<close>

definition check_component_classes :: "re_module \<Rightarrow> string \<Rightarrow> json \<Rightarrow> issue list" where
  "check_component_classes re content captured_components =
     (let card_issues =
            (if contains content ''rounded-xl'' \<and> contains content ''border''
                \<and> contains content ''bg-''
                \<and> \<not> contains content ''.card''
                \<and> \<not> contains content ''className=\"card''
                \<and> \<not> contains content (raw ''className=`card'')
                \<and> re_search re card_pattern content False
             then [\<lparr>i_type = ''suggestion'', i_line = 0,
                    i_issue = ''Possible card pattern without .card class'',
                    i_found = ''rounded-xl border p-* pattern'',
                    i_suggestion = ''Consider using className=\"card\" for consistency''\<rparr>]
             else []);
          button_issues = concat (map (\<lambda>m.
             if \<not> contains (m_group m) ''btn-''
             then [\<lparr>i_type = ''suggestion'',
                    i_line = count_newlines (take (m_start m) content) + 1,
                    i_issue = ''Button without btn-* class'',
                    i_found = take 50 (m_group m),
                    i_suggestion = ''Use btn-primary, btn-secondary, etc.''\<rparr>]
             else []) (re_finditer re button_pattern content))
      in card_issues @ button_issues)"

definition padding_pattern :: string where
  "padding_pattern = raw ''p-(~d+)''"

text \<open>
  The set of common paddings is built by the check, which unpacks every entry of the
  list into a value and a count, and is then never consulted.
\<close>

definition common_paddings :: "json \<Rightarrow> exn + json set" where
  "common_paddings captured_spacing =
     bind_exn (json_get captured_spacing ''paddings'' (JList [])) (\<lambda>paddings.
     bind_exn (json_iter paddings) (\<lambda>items.
     bind_exn (map_exn unpack2 items) (\<lambda>pairs.
       Inr (set (concat (map (\<lambda>(padding, n).
              case padding of JStr s \<Rightarrow> (if contains s ''px'' then [padding] else [])
                            | _ \<Rightarrow> []) pairs))))))"

definition check_spacing_patterns :: "re_module \<Rightarrow> string \<Rightarrow> json \<Rightarrow> exn + issue list" where
  "check_spacing_patterns re content captured_spacing =
     bind_exn (common_paddings captured_spacing) (\<lambda>common.
       Inr (concat (map (\<lambda>m.
         if m_group1 m \<notin> set [''2'', ''3'', ''4'', ''6'', ''8'']
         then [\<lparr>i_type = ''info'',
                i_line = count_newlines (take (m_start m) content) + 1,
                i_issue = ''Uncommon padding value'',
                i_found = ''p-'' @ m_group1 m,
                i_suggestion = ''Common BOSS paddings: p-2, p-3, p-4, p-6, p-8''\<rparr>]
         else []) (re_finditer re padding_pattern content))))"

subsection \<open>Validating one file\<close>

text \<open>
  \<open>validate_file\<close> reads the file, runs the three checks in order and counts. Whatever
  the read or a check raises leaves the function; then there is no result.
\<close>

definition validate_file ::
  "re_module \<Rightarrow> filesystem \<Rightarrow> string \<Rightarrow> (string \<times> json) list \<Rightarrow> exn + validation" where
  "validate_file re fs filepath captured_data =
     bind_exn (fs_read_text fs filepath) (\<lambda>content.
     bind_exn (check_color_consistency re content (dict_get captured_data ''colors'' (JDict [])))
       (\<lambda>color_issues.
     bind_exn (Inr (check_component_classes re content
                      (dict_get captured_data ''components'' (JDict []))))
       (\<lambda>component_issues.
     bind_exn (check_spacing_patterns re content (dict_get captured_data ''spacing'' (JDict [])))
       (\<lambda>spacing_issues.
       let issues = color_issues @ component_issues @ spacing_issues;
           errs = filter (\<lambda>i. i_type i = ''error'') issues;
           warns = filter (\<lambda>i. i_type i = ''warning'') issues
       in Inr \<lparr>v_file = filepath,
                v_issues = issues,
                v_passed = (length errs = 0),
                v_summary = \<lparr>errors = length errs,
                             warnings = length warns,
                             suggestions = length issues - length errs - length warns\<rparr>\<rparr>))))"

text \<open>
  The JSON that \<open>extract_design_tokens.py\<close> writes: a colour list holds objects with
  \<open>rgb\<close>, \<open>hex\<close> and \<open>count\<close>, the paddings are pairs of a value and its count.
\<close>

definition color_json :: "string \<times> string \<times> int \<Rightarrow> json" where
  "color_json = (\<lambda>(rgb, hex, n). JDict [(''rgb'', JStr rgb), (''hex'', JStr hex), (''count'', JInt n)])"

definition colors_json ::
  "(string \<times> string \<times> int) list \<Rightarrow> (string \<times> string \<times> int) list
   \<Rightarrow> (string \<times> string \<times> int) list \<Rightarrow> string list \<Rightarrow> json" where
  "colors_json backgrounds texts borders shadows =
     JDict [(''backgrounds'', JList (map color_json backgrounds)),
            (''texts'', JList (map color_json texts)),
            (''borders'', JList (map color_json borders)),
            (''shadows'', JList (map JStr shadows))]"

definition spacing_json :: "(string \<times> int) list \<Rightarrow> json" where
  "spacing_json paddings =
     JDict [(''paddings'', JList (map (\<lambda>(k, n). JList [JStr k, JInt n]) paddings))]"

section \<open>The session orchestrator\<close>

text \<open>
  Modelled from the spec: the session orchestrator, its process runner, process reaper
  and checkpoint validator are not among the repository's files under \<open>src/\<close>; the
  definitions of this section follow sections 3, 4.2 and 6 of the specification, which
  name the states, the transitions and the preconditions, and the scenario of section 8.
\<close>

text \<open>
  Modelled from the spec: \<open>RunConfig\<close>, with the fields the orchestrator reads: the
  workspace path and the work-manifest path of the preconditions (section 6), and the
  two bounds of the state machine. The retry cap is fixed at 2.
\<close>

record run_config =
  workspace :: string
  manifest :: string
  maxSessions :: nat
  checkpointInterval :: nat

text \<open>Modelled from the spec: the per-session retry cap of \<open>RunConfig\<close>, fixed at 2.\<close>

definition retry_cap :: nat where
  "retry_cap = 2"

text \<open>
  Modelled from the spec: \<open>SessionOutcome\<close>, \<open>CheckpointOutcome\<close> and the external
  collaborators whose answers the state machine reads. The runner is asked for the
  outcome of the attempt with a given sequence number and retry count; \<open>None\<close> stands
  for an exception that escapes it. The reaper's count is read by nobody, so the reaper
  appears only as an event.
\<close>

datatype session_outcome =
    Succeeded bool string
  | Failed string "int option"
  | TimedOut

record checkpoint_outcome =
  cp_passed :: bool
  cp_warnings :: "string list"

record collaborators =
  run_attempt :: "nat \<Rightarrow> nat \<Rightarrow> session_outcome option"
  validate_checkpoint :: "nat \<Rightarrow> checkpoint_outcome"

text \<open>
  Modelled from the spec: the states of section 4.2. \<open>RETRY seq n\<close> is about to re-run
  sequence number \<open>seq\<close> with retry count \<open>n\<close>; \<open>ADVANCED seq\<close> has just moved on to
  sequence number \<open>seq\<close>.
\<close>

datatype terminal = ALL_PASSED | EXHAUSTED | FATAL

datatype orch_state =
    IDLE
  | RUNNING nat
  | RETRY nat nat
  | ADVANCED nat
  | TERMINAL terminal

text \<open>
  Modelled from the spec: what the orchestrator calls outside itself, in order, and the
  \<open>RunSummary\<close> counters with the state they are held beside. A session is counted as
  attempted once, when the first attempt of its sequence number is spawned.
\<close>

datatype orch_event = Spawn nat nat | Reap | Checkpoint nat

record machine =
  state :: orch_state
  sessionsAttempted :: nat
  sessionsCompleted :: nat
  sessionsFailed :: nat
  completionFlag :: bool
  runWarnings :: "string list"
  advancedCount :: nat
  events :: "orch_event list"

text \<open>
  Modelled from the spec: the orchestrator before the run, in \<open>IDLE\<close> with every counter
  at zero.
\<close>

definition initial :: machine where
  "initial =
     \<lparr>state = IDLE, sessionsAttempted = 0, sessionsCompleted = 0, sessionsFailed = 0,
      completionFlag = False, runWarnings = [], advancedCount = 0, events = []\<rparr>"

text \<open>
  Modelled from the spec: an advance, the transition from sequence number \<open>seq\<close> to the
  next one (the glossary's "Advance").
\<close>

definition advance :: "nat \<Rightarrow> machine \<Rightarrow> machine" where
  "advance seq m = m\<lparr>state := ADVANCED (seq + 1), advancedCount := advancedCount m + 1\<rparr>"

text \<open>
  Modelled from the spec: one attempt of sequence number \<open>seq\<close> at retry count \<open>n\<close>, and
  what its outcome does to the state (section 4.2, "On \<open>RUNNING(seq)\<close>"). The orchestrator
  owns no process-spawning logic; it asks the runner. A success completes the sequence
  number whether or not it reports the work complete, so it is an advance in both
  cases ("once per completed sequence number, success or exhausted-retry failure");
  when the work is reported complete the completion flag is set, and the run ends in
  \<open>ALL_PASSED\<close> once the cleanup of that advance is done, with no further attempt. This is
  what the scenario of section 8 counts: two checkpoints for two sessions.
\<close>

definition attempt :: "collaborators \<Rightarrow> nat \<Rightarrow> nat \<Rightarrow> machine \<Rightarrow> machine" where
  "attempt col seq n m =
     (let m1 = m\<lparr>events := events m @ [Spawn seq n],
                  sessionsAttempted := sessionsAttempted m + (if n = 0 then 1 else 0)\<rparr>
      in case run_attempt col seq n of
           None \<Rightarrow> m1\<lparr>state := TERMINAL FATAL\<rparr>
         | Some (Succeeded all_done metrics) \<Rightarrow>
             (if all_done
              then advance seq (m1\<lparr>sessionsCompleted := sessionsCompleted m1 + 1,
                                   completionFlag := True\<rparr>)
              else advance seq (m1\<lparr>sessionsCompleted := sessionsCompleted m1 + 1\<rparr>))
         | Some (Failed reason code) \<Rightarrow>
             (if n < retry_cap then m1\<lparr>state := RETRY seq (n + 1)\<rparr>
              else advance seq (m1\<lparr>sessionsFailed := sessionsFailed m1 + 1\<rparr>))
         | Some TimedOut \<Rightarrow>
             (if n < retry_cap then m1\<lparr>state := RETRY seq (n + 1)\<rparr>
              else advance seq (m1\<lparr>sessionsFailed := sessionsFailed m1 + 1\<rparr>)))"

text \<open>
  Modelled from the spec: what follows an advance. The reaper runs; every
  \<open>checkpointInterval\<close> advances, and only while the sequence number is below
  \<open>maxSessions\<close>, the checkpoint validator runs, and a failing checkpoint adds its
  warnings and changes nothing else. Then the loop ends in \<open>ALL_PASSED\<close> when the
  completed attempt reported the work complete, and in \<open>EXHAUSTED\<close> when the sequence
  number equals \<open>maxSessions\<close>; otherwise the next sequence number runs.
\<close>

definition after_advance :: "run_config \<Rightarrow> collaborators \<Rightarrow> nat \<Rightarrow> machine \<Rightarrow> machine" where
  "after_advance cfg col seq m =
     (let m1 = m\<lparr>events := events m @ [Reap]\<rparr>;
          m2 = (if seq mod checkpointInterval cfg = 0 \<and> seq < maxSessions cfg
                then (let outcome = validate_checkpoint col seq
                      in m1\<lparr>events := events m1 @ [Checkpoint seq],
                             runWarnings := runWarnings m1 @
                               (if cp_passed outcome then [] else cp_warnings outcome)\<rparr>)
                else m1)
      in m2\<lparr>state := (if completionFlag m then TERMINAL ALL_PASSED
                       else if seq = maxSessions cfg then TERMINAL EXHAUSTED
                       else RUNNING seq)\<rparr>)"

text \<open>Modelled from the spec: one transition of the state machine.\<close>

definition step :: "run_config \<Rightarrow> collaborators \<Rightarrow> machine \<Rightarrow> machine" where
  "step cfg col m =
     (case state m of
        IDLE \<Rightarrow> m\<lparr>state := RUNNING 0\<rparr>
      | RUNNING seq \<Rightarrow> attempt col seq 0 m
      | RETRY seq n \<Rightarrow> attempt col seq n m
      | ADVANCED seq \<Rightarrow> after_advance cfg col seq m
      | TERMINAL t \<Rightarrow> m)"

text \<open>Modelled from the spec: the terminal states, in which the loop has ended.\<close>

definition is_terminal :: "orch_state \<Rightarrow> bool" where
  "is_terminal s = (case s of TERMINAL t \<Rightarrow> True | _ \<Rightarrow> False)"

text \<open>
  Modelled from the spec: the loop, which takes transitions until a terminal state.
  A run that never reaches one has no result (\<open>None\<close>).
\<close>

partial_function (option) run :: "run_config \<Rightarrow> collaborators \<Rightarrow> machine \<Rightarrow> machine option" where
  "run cfg col m = (if is_terminal (state m) then Some m else run cfg col (step cfg col m))"

text \<open>
  Modelled from the spec: the preconditions of section 6, checked before the loop
  starts. \<open>present\<close> tells which paths exist. A missing workspace or work manifest gives
  the error and the counters of a run that never started.
\<close>

datatype precondition_error = Workspace_missing string | Manifest_missing string

definition orchestrate ::
  "(string \<Rightarrow> bool) \<Rightarrow> run_config \<Rightarrow> collaborators
   \<Rightarrow> (precondition_error option \<times> machine) option" where
  "orchestrate present cfg col =
     (if \<not> present (workspace cfg)
      then Some (Some (Workspace_missing (workspace cfg)), initial\<lparr>state := TERMINAL FATAL\<rparr>)
      else if \<not> present (manifest cfg)
      then Some (Some (Manifest_missing (manifest cfg)), initial\<lparr>state := TERMINAL FATAL\<rparr>)
      else map_option (\<lambda>m. (None, m)) (run cfg col initial))"

text \<open>
  Modelled from the spec: the retry count of the \<open>SessionAttempt\<close> that a state is about
  to spawn.
\<close>

definition retry_count :: "orch_state \<Rightarrow> nat" where
  "retry_count s = (case s of RETRY seq n \<Rightarrow> n | _ \<Rightarrow> 0)"

text \<open>
  Modelled from the spec: an attempt failure, the outcome \<open>Failed\<close> or \<open>TimedOut\<close> (section
  7, "Attempt failure").
\<close>

definition is_failure :: "session_outcome option \<Rightarrow> bool" where
  "is_failure r = (case r of Some (Failed reason code) \<Rightarrow> True | Some TimedOut \<Rightarrow> True | _ \<Rightarrow> False)"

text \<open>
  Modelled from the spec: every attempt fails all of its retries, that is, the runner
  answers with a failure whatever sequence number and retry count it is asked for.
\<close>

definition always_fails :: "collaborators \<Rightarrow> bool" where
  "always_fails col = (\<forall>seq n. is_failure (run_attempt col seq n))"

text \<open>
  Modelled from the spec: the states in which an attempt is spawned. \<open>RUNNING seq\<close> spawns
  the attempt of sequence number \<open>seq\<close> with retry count 0, \<open>RETRY seq n\<close> the one with retry
  count \<open>n\<close>.
\<close>

definition at_attempt :: "orch_state \<Rightarrow> nat \<Rightarrow> nat \<Rightarrow> bool" where
  "at_attempt s seq n = (s = RETRY seq n \<or> (s = RUNNING seq \<and> n = 0))"

text \<open>
  Modelled from the spec: the range of the retry count in a retry state, 1 or 2 (the
  \<open>SessionAttempt\<close> of section 3 has retry counts 0 to 2, and 0 is the first attempt).
\<close>

definition retry_ok :: "orch_state \<Rightarrow> bool" where
  "retry_ok s = (case s of RETRY seq n \<Rightarrow> 1 \<le> n \<and> n \<le> 2 | _ \<Rightarrow> True)"

section \<open>Examples\<close>

text \<open>
  An example: the file \<open>Card.tsx\<close> holds one line, in which Python's \<open>re\<close> finds the
  padding pattern once, at offset 16, and none of the other patterns.
\<close>

definition card_content :: string where
  "card_content = ''<div className=\"p-5\">''"

definition card_re :: re_module where
  "card_re =
     \<lparr>re_search = (\<lambda>pat s ignorecase. False),
      re_finditer = (\<lambda>pat s.
        if pat = padding_pattern \<and> s = card_content
        then [\<lparr>m_start = 16, m_group = ''p-5'', m_group1 = ''5''\<rparr>] else [])\<rparr>"

definition no_such_file :: "string \<Rightarrow> exn" where
  "no_such_file p = OSError ENOENT (raw ''[Errno 2] No such file or directory: `'' @ p @ raw ''`'')"

definition card_fs :: filesystem where
  "card_fs =
     \<lparr>fs_resolve = (\<lambda>p. Inr p),
      fs_stat = (\<lambda>p. if p = ''Card.tsx'' then Inr () else Inl (no_such_file p)),
      fs_rglob = (\<lambda>p pat. []),
      fs_read_text = (\<lambda>p. if p = ''Card.tsx'' then Inr card_content
                           else Inl (no_such_file p))\<rparr>"

text \<open>
  Captured data of the shape the extraction script writes, and two that the JSON files
  can hold as well: a padding that is not a pair, and a colour whose \<open>hex\<close> is \<open>null\<close>.
\<close>

definition card_captured :: "(string \<times> json) list" where
  "card_captured =
     [(''colors'', colors_json [(''rgb(18, 18, 26)'', ''#12121A'', 4)] [] [] []),
      (''components'', JDict []),
      (''spacing'', spacing_json [(''16px'', 12)]),
      (''typography'', JDict [])]"

definition bare_paddings :: "(string \<times> json) list" where
  "bare_paddings =
     [(''colors'', JDict []), (''components'', JDict []),
      (''spacing'', JDict [(''paddings'', JList [JStr ''16px''])]),
      (''typography'', JDict [])]"

definition null_hex :: "(string \<times> json) list" where
  "null_hex =
     [(''colors'', JDict [(''backgrounds'', JList [JDict [(''hex'', JNull)]])]),
      (''components'', JDict []), (''spacing'', JDict []), (''typography'', JDict [])]"

text \<open>
  A project of one TypeScript file with two lines, seen through two file systems that
  differ everywhere but in that file. In these two lines \<open>re\<close> finds the patterns
  \<open>@ts-ignore\<close> and \<open>FIXME:\<close>, which are plain text, and no other.
\<close>

definition util_content :: string where
  "util_content = ''// @ts-ignore'' @ [CHR 0x0A] @ ''// FIXME: typed later''"

definition util_fs :: filesystem where
  "util_fs =
     \<lparr>fs_resolve = (\<lambda>p. Inr (''/repo/'' @ p)),
      fs_stat = (\<lambda>p. if p \<in> {''/repo/src'', ''/repo/src/util.ts''} then Inr ()
                      else Inl (no_such_file p)),
      fs_rglob = (\<lambda>p pat. if p = ''/repo/src'' \<and> pat = ''*.ts'' then [''/repo/src/util.ts''] else []),
      fs_read_text = (\<lambda>p. if p = ''/repo/src/util.ts'' then Inr util_content
                           else Inl (no_such_file p))\<rparr>"

definition util_fs_later :: filesystem where
  "util_fs_later =
     \<lparr>fs_resolve = (\<lambda>p. Inr p),
      fs_stat = (\<lambda>p. Inr ()),
      fs_rglob = (\<lambda>p pat. [''/repo/src/util.ts'', ''/repo/src/new.ts'']),
      fs_read_text = (\<lambda>p. if p = ''/repo/src/util.ts'' then Inr util_content
                           else Inr ''console.log(1)'')\<rparr>"

text \<open>A file system that holds one file and nothing else.\<close>

definition only_file :: "string \<Rightarrow> string \<Rightarrow> filesystem" where
  "only_file p content =
     \<lparr>fs_resolve = (\<lambda>q. Inr q),
      fs_stat = (\<lambda>q. if q = p then Inr () else Inl (no_such_file q)),
      fs_rglob = (\<lambda>q pat. []),
      fs_read_text = (\<lambda>q. if q = p then Inr content else Inl (no_such_file q))\<rparr>"






definition fresh :: "filesystem \<Rightarrow> 'd world" where
  "fresh fs = \<lparr>w_fs = fs, w_log = []\<rparr>"

text \<open>
  Two runs of the orchestrator with \<open>maxSessions = 3\<close> and \<open>checkpointInterval = 1\<close>: one
  in which every attempt fails, and the scenario of section 8 of the specification, in
  which sequence number 0 fails twice and then succeeds without completing the work,
  and sequence number 1 reports the work complete.
\<close>

definition cfg3 :: run_config where
  "cfg3 = \<lparr>workspace = ''/work'', manifest = ''/work/manifest.json'',
            maxSessions = 3, checkpointInterval = 1\<rparr>"

definition failing_col :: collaborators where
  "failing_col =
     \<lparr>run_attempt = (\<lambda>seq n. Some (if even n then Failed ''exit status 1'' (Some 1) else TimedOut)),
      validate_checkpoint = (\<lambda>seq. \<lparr>cp_passed = False, cp_warnings = [''build failed'']\<rparr>)\<rparr>"

definition scenario_col :: collaborators where
  "scenario_col =
     \<lparr>run_attempt = (\<lambda>seq n.
        if seq = 0 then (if n < 2 then Some (Failed ''exit status 1'' (Some 1))
                         else Some (Succeeded False ''{}''))
        else Some (Succeeded True ''{}'')),
      validate_checkpoint = (\<lambda>seq. \<lparr>cp_passed = True, cp_warnings = []\<rparr>)\<rparr>"

section \<open>Properties of the gaming score\<close>

lemma round_half_even_bounds:
  "of_int (round_half_even x) \<le> x + 1 / 2" "x - 1 / 2 \<le> of_int (round_half_even x)"
  unfolding round_half_even_def Let_def
  by (auto simp: not_less) linarith+

lemma ilog2_bounds:
  assumes "0 < x"
  shows "power_int 2 (ilog2 x) \<le> x" "x < power_int 2 (ilog2 x + 1)"
proof -
  obtain a b where ab: "quotient_of x = (a, b)" by force
  have bpos: "0 < b" using quotient_of_denom_pos [OF ab] .
  have x: "x = of_int a / of_int b" using quotient_of_div [OF ab] .
  have apos: "0 < a" using assms bpos x by (simp add: zero_less_divide_iff)
  define la where "la = bitlen a"
  define lb where "lb = bitlen b"
  have la1: "1 \<le> la" using apos bitlen_eq_zero_iff[of a] bitlen_nonneg[of a] by (simp add: la_def)
  have lb1: "1 \<le> lb" using bpos bitlen_eq_zero_iff[of b] bitlen_nonneg[of b] by (simp add: lb_def)
  have "2 ^ nat (la - 1) \<le> a" "a < 2 ^ nat la" "2 ^ nat (lb - 1) \<le> b" "b < 2 ^ nat lb"
    using bitlen_bounds [OF apos] bitlen_bounds [OF bpos] by (simp_all add: la_def lb_def)
  then have "(of_int (2 ^ nat (la - 1)) :: rat) \<le> of_int a" "(of_int a :: rat) < of_int (2 ^ nat la)"
    "(of_int (2 ^ nat (lb - 1)) :: rat) \<le> of_int b" "(of_int b :: rat) < of_int (2 ^ nat lb)"
    by (simp_all only: of_int_le_iff of_int_less_iff)
  then have ra: "power_int 2 (la - 1) \<le> (of_int a :: rat)" "(of_int a :: rat) < power_int 2 la"
    and rb: "power_int 2 (lb - 1) \<le> (of_int b :: rat)" "(of_int b :: rat) < power_int 2 lb"
    using la1 lb1 by (simp_all add: power_int_def)
  have rbpos: "(0::rat) < of_int b" using bpos by simp
  have up: "x < power_int 2 (la - lb + 1)"
  proof -
    have "power_int 2 la = power_int 2 (la - lb + 1) * power_int (2::rat) (lb - 1)"
      by (simp add: power_int_add [symmetric])
    also have "\<dots> \<le> power_int 2 (la - lb + 1) * of_int b"
      using rb(1) by (simp add: mult_left_mono)
    finally have "of_int a < power_int 2 (la - lb + 1) * (of_int b :: rat)"
      using ra(2) by linarith
    then show ?thesis using rbpos by (simp add: x pos_divide_less_eq)
  qed
  have lo: "power_int 2 (la - lb - 1) \<le> x"
  proof -
    have "power_int 2 (la - lb - 1) * (of_int b :: rat) \<le> power_int 2 (la - lb - 1) * power_int 2 lb"
      using rb(2) by (simp add: mult_left_mono)
    also have "\<dots> = power_int 2 (la - 1)"
      by (simp add: power_int_add [symmetric])
    finally have "power_int 2 (la - lb - 1) * (of_int b :: rat) \<le> of_int a"
      using ra(1) by linarith
    then show ?thesis using rbpos by (simp add: x pos_le_divide_eq)
  qed
  have il: "ilog2 x = (if power_int 2 (la - lb) \<le> x then la - lb else la - lb - 1)"
    by (simp add: ilog2_def ab la_def lb_def Let_def)
  show "power_int 2 (ilog2 x) \<le> x" using lo by (simp add: il)
  show "x < power_int 2 (ilog2 x + 1)" using up by (auto simp add: il not_le)
qed

lemma power_int_2_mono: "m \<le> n \<Longrightarrow> power_int (2::rat) m \<le> power_int 2 n"
  by (rule power_int_increasing) simp_all

lemma ilog2_unique:
  assumes "0 < x" "power_int 2 e \<le> x" "x < power_int 2 (e + 1)"
  shows "ilog2 x = e"
proof (rule ccontr)
  assume ne: "ilog2 x \<noteq> e"
  note b = ilog2_bounds [OF assms(1)]
  show False
  proof (cases "ilog2 x < e")
    case True
    then have "power_int (2::rat) (ilog2 x + 1) \<le> power_int 2 e"
      by (intro power_int_2_mono) simp
    with b(2) assms(2) show False by linarith
  next
    case False
    with ne have "e + 1 \<le> ilog2 x" by simp
    then have "power_int (2::rat) (e + 1) \<le> power_int 2 (ilog2 x)"
      by (intro power_int_2_mono)
    with b(1) assms(3) show False by linarith
  qed
qed



lemma power_int_2_pos: "0 < power_int (2::rat) n"
  by (simp add: zero_less_power_int)

lemma power_int_2_split: "power_int (2::rat) (m + n) = power_int 2 m * power_int 2 n"
  by (simp add: power_int_add)

lemma power_int_2_shift: "power_int (2::rat) e = power_int 2 k * power_int 2 (e - k)"
  using power_int_2_split [of k "e - k"] by simp

lemma p52: "power_int (2::rat) 52 = of_int (2 ^ 52)"
  by (simp add: power_int_def)

lemma p53: "power_int (2::rat) 53 = of_int (2 ^ 53)"
  by (simp add: power_int_def)

lemma p1024: "power_int (2::rat) 1024 = 2 ^ 1024"
  by (simp add: power_int_def)

lemma round_half_even_nonneg: "0 \<le> y \<Longrightarrow> 0 \<le> round_half_even y"
proof -
  assume "0 \<le> y"
  with round_half_even_bounds(2) [of y] have "- 1 / 2 \<le> (of_int (round_half_even y) :: rat)"
    by linarith
  then have "(of_int (- 1) :: rat) < of_int (round_half_even y)" by simp
  then have "- 1 < round_half_even y" by (simp only: of_int_less_iff)
  then show ?thesis by simp
qed

lemma round_half_even_ge:
  assumes "of_int k \<le> y" shows "k \<le> round_half_even y"
proof -
  from round_half_even_bounds(2) [of y] assms
  have "(of_int (k - 1) :: rat) < of_int (round_half_even y)" by simp
  then have "k - 1 < round_half_even y" by (simp only: of_int_less_iff)
  then show ?thesis by simp
qed

lemma round_half_even_le:
  assumes "y < of_int k + 1 / 2" shows "round_half_even y \<le> k"
proof -
  from round_half_even_bounds(1) [of y] assms
  have "(of_int (round_half_even y) :: rat) < of_int (k + 1)" by simp
  then have "round_half_even y < k + 1" by (simp only: of_int_less_iff)
  then show ?thesis by simp
qed

lemma round_double_nonneg: "0 \<le> x \<Longrightarrow> nonneg_float (round_double x)"
proof (cases "x = 0")
  case True
  then show ?thesis by (simp add: round_double_def nonneg_float_def)
next
  case False
  assume "0 \<le> x"
  with False have pos: "0 < x" by simp
  define q where "q = power_int (2::rat) (max (ilog2 \<bar>x\<bar>) (- 1022) - 52)"
  have q: "0 < q" by (simp add: q_def power_int_2_pos)
  have "0 \<le> \<bar>x\<bar> / q" using q by simp
  then have "0 \<le> round_half_even (\<bar>x\<bar> / q)" by (rule round_half_even_nonneg)
  then have "0 \<le> (of_int (round_half_even (\<bar>x\<bar> / q)) :: rat) * q" using q by simp
  then show ?thesis
    using pos by (simp add: round_double_def Let_def nonneg_float_def q_def)
qed

lemma round_double_pos:
  assumes "0 < x"
  shows "round_double x =
           (if power_int (2::rat) 1024
                 \<le> of_int (round_half_even (x / power_int 2 (max (ilog2 x) (- 1022) - 52)))
                   * power_int 2 (max (ilog2 x) (- 1022) - 52) then PInf
            else Finite (of_int (round_half_even (x / power_int 2 (max (ilog2 x) (- 1022) - 52)))
                   * power_int 2 (max (ilog2 x) (- 1022) - 52)))"
  using assms by (simp add: round_double_def Let_def p1024)

lemma round_double_overflow:
  assumes "power_int 2 1024 \<le> x"
  shows "round_double x = PInf"
proof -
  have pos: "0 < x" using assms power_int_2_pos [of 1024] by linarith
  define e where "e = ilog2 x"
  have b: "power_int 2 e \<le> x" "x < power_int 2 (e + 1)"
    using ilog2_bounds [OF pos] by (simp_all add: e_def)
  have e: "1024 \<le> e"
  proof (rule ccontr)
    assume "\<not> 1024 \<le> e"
    then have "power_int (2::rat) (e + 1) \<le> power_int 2 1024"
      by (intro power_int_2_mono) simp
    with b(2) assms show False by linarith
  qed
  define q where "q = power_int (2::rat) (e - 52)"
  have q: "0 < q" by (simp add: q_def power_int_2_pos)
  have eq: "power_int (2::rat) e = power_int 2 52 * q"
    unfolding q_def by (rule power_int_2_shift)
  have "power_int 2 52 * q \<le> x" using b(1) unfolding eq .
  then have "power_int 2 52 \<le> x / q" using q by (simp only: pos_le_divide_eq)
  then have "of_int (2 ^ 52) \<le> x / q" unfolding p52 .
  then have "2 ^ 52 \<le> round_half_even (x / q)" by (rule round_half_even_ge)
  then have "(of_int (2 ^ 52) :: rat) \<le> of_int (round_half_even (x / q))"
    by (simp only: of_int_le_iff)
  then have "power_int 2 52 * q \<le> of_int (round_half_even (x / q)) * q"
    using q unfolding p52 by (simp only: mult_le_cancel_right_pos)
  then have "power_int 2 e \<le> of_int (round_half_even (x / q)) * q"
    unfolding eq .
  moreover have "power_int (2::rat) 1024 \<le> power_int 2 e"
    using e by (rule power_int_2_mono)
  ultimately have big: "power_int 2 1024 \<le> of_int (round_half_even (x / q)) * q"
    by linarith
  have m: "max e (- 1022) = e" using e by simp
  from round_double_pos [OF pos] big show ?thesis
    unfolding e_def [symmetric] m q_def [symmetric] by (simp only: if_True)
qed

lemma round_double_ge1:
  assumes "1 \<le> x" "x < power_int 2 1024 - power_int 2 970"
  shows "\<exists>r. round_double x = Finite r \<and> 1 \<le> r"
proof -
  have pos: "0 < x" using assms by linarith
  define e where "e = ilog2 x"
  have b: "power_int 2 e \<le> x" "x < power_int 2 (e + 1)"
    using ilog2_bounds [OF pos] by (simp_all add: e_def)
  have e0: "0 \<le> e"
  proof (rule ccontr)
    assume "\<not> 0 \<le> e"
    then have "power_int (2::rat) (e + 1) \<le> power_int 2 0"
      by (intro power_int_2_mono) simp
    with b(2) assms(1) show False by simp
  qed
  have e1: "e \<le> 1023"
  proof (rule ccontr)
    assume "\<not> e \<le> 1023"
    then have "power_int (2::rat) 1024 \<le> power_int 2 e"
      by (intro power_int_2_mono) simp
    with b(1) assms(2) power_int_2_pos [of 970] show False by linarith
  qed
  define q where "q = power_int (2::rat) (e - 52)"
  define m where "m = round_half_even (x / q)"
  have q: "0 < q" by (simp add: q_def power_int_2_pos)
  have eq: "power_int (2::rat) e = power_int 2 52 * q"
    unfolding q_def by (rule power_int_2_shift)
  have eq1: "power_int (2::rat) (e + 1) = power_int 2 53 * q"
  proof -
    have "e + 1 - 53 = e - 52" by simp
    with power_int_2_shift [of "e + 1" 53] show ?thesis
      unfolding q_def by (simp only:)
  qed
  have "power_int 2 52 * q \<le> x" using b(1) unfolding eq .
  then have "power_int 2 52 \<le> x / q" using q by (simp only: pos_le_divide_eq)
  then have "of_int (2 ^ 52) \<le> x / q" unfolding p52 .
  then have "2 ^ 52 \<le> m" unfolding m_def by (rule round_half_even_ge)
  then have "(of_int (2 ^ 52) :: rat) \<le> of_int m" by (simp only: of_int_le_iff)
  then have "power_int 2 52 * q \<le> of_int m * q"
    using q unfolding p52 by (simp only: mult_le_cancel_right_pos)
  then have lo: "power_int 2 e \<le> of_int m * q" unfolding eq .
  have "power_int (2::rat) 0 \<le> power_int 2 e" using e0 by (rule power_int_2_mono)
  with lo have r1: "1 \<le> of_int m * q" by simp
  have hi: "of_int m * q < power_int 2 1024"
  proof (cases "e = 1023")
    case False
    with e1 have e2: "e + 1 \<le> 1023" by simp
    have "x < power_int 2 53 * q" using b(2) unfolding eq1 .
    then have "x / q < power_int 2 53" using q by (simp only: pos_divide_less_eq)
    then have "x / q < of_int (2 ^ 53) + 1 / 2" unfolding p53 by linarith
    then have "m \<le> 2 ^ 53" unfolding m_def by (rule round_half_even_le)
    then have "(of_int m :: rat) \<le> of_int (2 ^ 53)" by (simp only: of_int_le_iff)
    then have "of_int m * q \<le> power_int 2 53 * q"
      using q unfolding p53 by (simp only: mult_le_cancel_right_pos)
    also have "\<dots> = power_int 2 (e + 1)" unfolding eq1 ..
    also have "\<dots> \<le> power_int 2 1023" using e2 by (rule power_int_2_mono)
    also have "\<dots> < power_int 2 1024" by (simp add: power_int_def)
    finally show ?thesis .
  next
    case True
    have q971: "q = power_int 2 971" by (simp add: q_def True)
    have "power_int (2::rat) 1024 - power_int 2 970 = (of_int (2 ^ 53 - 1) + 1 / 2) * q"
      unfolding q971 by (simp add: power_int_def)
    with assms(2) have "x < (of_int (2 ^ 53 - 1) + 1 / 2) * q" by simp
    then have "x / q < of_int (2 ^ 53 - 1) + 1 / 2"
      using q by (simp only: pos_divide_less_eq)
    then have "m \<le> 2 ^ 53 - 1" unfolding m_def by (rule round_half_even_le)
    then have "(of_int m :: rat) \<le> of_int (2 ^ 53 - 1)" by (simp only: of_int_le_iff)
    then have "of_int m * q \<le> of_int (2 ^ 53 - 1) * q"
      using q by (simp only: mult_le_cancel_right_pos)
    also have "\<dots> < power_int 2 1024"
      unfolding q971 by (simp add: power_int_def)
    finally show ?thesis .
  qed
  have mx: "max e (- 1022) = e" using e0 by simp
  from hi have "\<not> power_int 2 1024 \<le> of_int m * q" by (simp only: not_le)
  with round_double_pos [OF pos] have "round_double x = Finite (of_int m * q)"
    unfolding e_def [symmetric] mx q_def [symmetric] m_def [symmetric] by (simp only: if_False)
  with r1 show ?thesis by simp
qed


lemma weight_of_nonneg: "nonneg_float (weight_of c)"
  by (simp add: weight_of_def weights_def round_double_nonneg)

lemma float_add_nonneg:
  "nonneg_float x \<Longrightarrow> nonneg_float y \<Longrightarrow> nonneg_float (float_add x y)"
  by (cases x; cases y) (simp_all add: nonneg_float_def round_double_nonneg [unfolded nonneg_float_def])

lemma foldl_float_nonneg:
  assumes "nonneg_float f" "\<forall>w \<in> set ws. nonneg_float w"
  shows "\<exists>g. foldl (\<lambda>acc w. FloatNum (float_add (case acc of IntNum i \<Rightarrow> Finite (of_int i)
                                                   | FloatNum f \<Rightarrow> f) w)) (FloatNum f) ws = FloatNum g
             \<and> nonneg_float g"
  using assms
proof (induction ws arbitrary: f)
  case Nil
  then show ?case by simp
next
  case (Cons w ws)
  have "nonneg_float (float_add f w)"
    using Cons.prems by (simp add: float_add_nonneg)
  from Cons.IH [OF this] Cons.prems(2) show ?case by simp
qed

lemma py_sum_nonneg:
  assumes "\<forall>w \<in> set ws. nonneg_float w" "ws \<noteq> []"
  shows "\<exists>g. py_sum ws = FloatNum g \<and> nonneg_float g"
proof -
  obtain w ws' where ws: "ws = w # ws'" using assms(2) by (cases ws) auto
  have "nonneg_float (Finite 0)" by (simp add: nonneg_float_def)
  moreover have "nonneg_float w" using assms(1) ws by simp
  ultimately have "nonneg_float (float_add (Finite 0) w)" by (rule float_add_nonneg)
  from foldl_float_nonneg [OF this, of ws'] assms(1) ws show ?thesis
    by (simp add: py_sum_def)
qed

lemma py_min_unit:
  assumes "nonneg_float q"
  shows "\<exists>s. py_min (Finite 1) q = Finite s \<and> 0 \<le> s \<and> s \<le> 1"
  using assms by (cases q) (auto simp: py_min_def nonneg_float_def)

lemma int_to_float_ok:
  assumes "1 \<le> n" "n < 2 ^ 1024 - 2 ^ 970"
  shows "\<exists>d. int_to_float n = Inr (Finite d) \<and> 1 \<le> d"
proof -
  have "(of_int n :: rat) < of_int (2 ^ 1024 - 2 ^ 970)"
    using assms(2) by (simp only: of_int_less_iff)
  then have "(of_int n :: rat) < power_int 2 1024 - power_int 2 970"
    by (simp add: power_int_def)
  moreover have "(1::rat) \<le> of_int n" using assms(1) by simp
  ultimately obtain r where "round_double (of_int n) = Finite r" "1 \<le> r"
    using round_double_ge1 by blast
  then show ?thesis by (simp add: int_to_float_def)
qed

lemma float_div_nonneg:
  assumes "nonneg_float f" "1 \<le> d"
  shows "\<exists>q. float_div f (Finite d) = Inr q \<and> nonneg_float q"
proof -
  have d: "d \<noteq> 0" "0 < d" using assms(2) by simp_all
  show ?thesis
  proof (cases f)
    case (Finite a)
    then have "0 \<le> a / d" using assms(1) d by (simp add: nonneg_float_def)
    then have "nonneg_float (round_double (a / d))" by (rule round_double_nonneg)
    then show ?thesis using Finite d by simp
  qed (use assms(1) d in \<open>simp_all add: nonneg_float_def\<close>)
qed

lemma round_half_even_tie_up:
  assumes "of_int k - 1 / 2 \<le> y" "y < of_int k" "even k"
  shows "round_half_even y = k"
proof -
  have fl: "\<lfloor>y\<rfloor> = k - 1"
    using assms(1,2) by (intro floor_unique) simp_all
  have r: "1 / 2 \<le> y - of_int (k - 1)" using assms(1) by simp
  have odd: "odd (k - 1)" using assms(3) by simp
  show ?thesis
    using r odd by (auto simp: round_half_even_def fl Let_def)
qed

lemma round_double_top:
  assumes "power_int 2 1024 - power_int 2 970 \<le> x"
  shows "round_double x = PInf"
proof (cases "power_int 2 1024 \<le> x")
  case True
  then show ?thesis by (rule round_double_overflow)
next
  case False
  then have hi: "x < power_int 2 1024" by simp
  have "power_int (2::rat) 1023 \<le> power_int 2 1024 - power_int 2 970"
    by (simp add: power_int_def)
  with assms have lo: "power_int 2 1023 \<le> x" by linarith
  have pos: "0 < x" using lo power_int_2_pos [of 1023] by linarith
  have e: "ilog2 x = 1023"
    using pos lo hi by (intro ilog2_unique) simp_all
  define q where "q = power_int (2::rat) 971"
  have q: "0 < q" by (simp add: q_def power_int_2_pos)
  have "power_int (2::rat) 1024 - power_int 2 970 = (of_int (2 ^ 53) - 1 / 2) * q"
    unfolding q_def by (simp add: power_int_def)
  with assms have "(of_int (2 ^ 53) - 1 / 2) * q \<le> x" by simp
  then have y1: "of_int (2 ^ 53) - 1 / 2 \<le> x / q"
    using q by (simp only: pos_le_divide_eq)
  have top: "power_int (2::rat) 1024 = of_int (2 ^ 53) * q"
    unfolding q_def by (simp add: power_int_def)
  with hi have "x < of_int (2 ^ 53) * q" by simp
  then have y2: "x / q < of_int (2 ^ 53)"
    using q by (simp only: pos_divide_less_eq)
  have m: "round_half_even (x / q) = 2 ^ 53"
    using y1 y2 by (rule round_half_even_tie_up) simp
  have big: "power_int 2 1024 \<le> of_int (round_half_even (x / q)) * q"
    by (simp only: m top order_refl)
  have mx: "max (1023::int) (- 1022) - 52 = 971" by simp
  from round_double_pos [OF pos] big show ?thesis
    unfolding e mx q_def [symmetric] by (simp only: if_True)
qed

lemma int_to_float_raises:
  assumes "2 ^ 1024 - 2 ^ 970 \<le> n"
  shows "int_to_float n = Inl (OverflowError ''int too large to convert to float'')"
proof -
  have "(of_int (2 ^ 1024 - 2 ^ 970) :: rat) \<le> of_int n"
    using assms by (simp only: of_int_le_iff)
  then have "power_int 2 1024 - power_int 2 970 \<le> (of_int n :: rat)"
    by (simp add: power_int_def)
  then have "round_double (of_int n) = PInf" by (rule round_double_top)
  then show ?thesis by (simp only: int_to_float_def pyfloat.case)
qed

lemma py_sum_float: "ws \<noteq> [] \<Longrightarrow> \<exists>f. py_sum ws = FloatNum f"
proof -
  have "\<exists>g. foldl (\<lambda>acc w. FloatNum (float_add (case acc of IntNum i \<Rightarrow> Finite (of_int i)
                                                   | FloatNum f \<Rightarrow> f) w)) (FloatNum f) ws = FloatNum g" for f ws
    by (induction ws arbitrary: f) simp_all
  then show "ws \<noteq> [] \<Longrightarrow> \<exists>f. py_sum ws = FloatNum f"
    by (cases ws) (simp_all add: py_sum_def)
qed

text \<open>
  The bound on \<open>total_files\<close> below is sharp: from \<open>2 ^ 1024 - 2 ^ 970\<close> on, the
  conversion raises, and a list that is not empty gives no score.
\<close>

lemma calculate_gaming_score_raises:
  assumes "violations \<noteq> []" "2 ^ 1024 - 2 ^ 970 \<le> total_files"
  shows "calculate_gaming_score violations total_files
           = Inl (OverflowError ''int too large to convert to float'')"
proof -
  have nz: "total_files \<noteq> 0" "max total_files 1 = total_files" using assms(2) by simp_all
  obtain f where "py_sum (map (\<lambda>v. weight_of (vi_category v)) violations) = FloatNum f"
    using py_sum_float [of "map (\<lambda>v. weight_of (vi_category v)) violations"] assms(1) by auto
  then show ?thesis
    using int_to_float_raises [OF assms(2)] nz
    by (simp add: calculate_gaming_score_def Let_def)
qed

lemma int_to_float_overflow:
  "int_to_float (2 ^ 1024) = Inl (OverflowError ''int too large to convert to float'')"
proof -
  have "round_double (of_int (2 ^ 1024)) = PInf"
    by (rule round_double_overflow) (simp add: power_int_def)
  then show ?thesis by (simp only: int_to_float_def pyfloat.case)
qed

text \<open>
  Claim C9, as stated, fails: with one violation and \<open>total_files = 2 ^ 1024\<close> the
  division converts the file count to a float, which raises \<open>OverflowError\<close>, and no
  score is returned.
\<close>

theorem calculate_gaming_score_overflow:
  "calculate_gaming_score
     [\<lparr>vi_file = ''t.py'', vi_line = 1, vi_category = ''test_gaming'',
       vi_pattern = raw ''assert~s+True~s*$'',
       vi_message = ''Meaningless assertion: assert True'',
       vi_content = ''assert True''\<rparr>] (2 ^ 1024)
   = Inl (OverflowError ''int too large to convert to float'')"
proof -
  have "max (2 ^ 1024) 1 = (2 ^ 1024 :: int)" by simp
  moreover have "(2 ^ 1024 :: int) \<noteq> 0" by simp
  ultimately show ?thesis
    using int_to_float_overflow
    by (simp only: calculate_gaming_score_def py_sum_def Let_def list.map foldl.simps
        number.case truediv.simps sum.case if_False)
qed

text \<open>
  Claim C9, amended. For every list of violations and every integer \<open>total_files\<close>
  that Python can convert to a float (below \<open>2 ^ 1024 - 2 ^ 970\<close>; any integer when
  the list is empty), \<open>calculate_gaming_score\<close> returns a float in the closed
  interval from 0.0 to 1.0, and exactly 0.0 when \<open>total_files\<close> is 0.
\<close>

theorem calculate_gaming_score_range:
  assumes "violations = [] \<or> total_files < 2 ^ 1024 - 2 ^ 970"
  shows "\<exists>s. calculate_gaming_score violations total_files = Inr (Finite s)
             \<and> 0 \<le> s \<and> s \<le> 1 \<and> (total_files = 0 \<longrightarrow> s = 0)"
proof (cases "total_files = 0")
  case True
  then show ?thesis by (simp add: calculate_gaming_score_def)
next
  case nz: False
  define n where "n = max total_files 1"
  have n1: "1 \<le> n" by (simp add: n_def)
  let ?ws = "map (\<lambda>v. weight_of (vi_category v)) violations"
  have "\<exists>q. truediv (py_sum ?ws) n = Inr q \<and> nonneg_float q"
  proof (cases "violations = []")
    case True
    have "round_double (0 / of_int n) = Finite 0" by (simp add: round_double_def)
    then show ?thesis using True n1 by (simp add: py_sum_def nonneg_float_def)
  next
    case False
    with assms have "total_files < 2 ^ 1024 - 2 ^ 970" by simp
    then have "n < 2 ^ 1024 - 2 ^ 970" by (simp add: n_def)
    with n1 obtain d where d: "int_to_float n = Inr (Finite d)" "1 \<le> d"
      using int_to_float_ok by blast
    have "\<forall>w \<in> set ?ws. nonneg_float w" by (simp add: weight_of_nonneg)
    moreover have "?ws \<noteq> []" using False by simp
    ultimately obtain g where g: "py_sum ?ws = FloatNum g" "nonneg_float g"
      using py_sum_nonneg by blast
    from float_div_nonneg [OF g(2) d(2)] show ?thesis
      using g(1) d(1) by simp
  qed
  then obtain q where q: "truediv (py_sum ?ws) n = Inr q" "nonneg_float q" by blast
  from py_min_unit [OF q(2)] obtain s where "py_min (Finite 1) q = Finite s" "0 \<le> s" "s \<le> 1"
    by blast
  then show ?thesis
    using nz q(1) by (simp add: calculate_gaming_score_def Let_def n_def [symmetric])
qed

theorem calculate_gaming_score_range_witness:
  "([\<lparr>vi_file = ''t.py'', vi_line = 1, vi_category = ''code_gaming'',
       vi_pattern = raw ''if~s+False~s*:'', vi_message = ''Disabled code block'',
       vi_content = ''if False:''\<rparr>] = [] \<or> (4::int) < 2 ^ 1024 - 2 ^ 970)
   \<and> (\<exists>s. calculate_gaming_score
            [\<lparr>vi_file = ''t.py'', vi_line = 1, vi_category = ''code_gaming'',
              vi_pattern = raw ''if~s+False~s*:'', vi_message = ''Disabled code block'',
              vi_content = ''if False:''\<rparr>] 4 = Inr (Finite s) \<and> 0 \<le> s \<and> s \<le> 1)"
proof -
  have h: "(4::int) < 2 ^ 1024 - 2 ^ 970" by simp
  then show ?thesis
    using calculate_gaming_score_range [of _ 4, OF disjI2, OF h] by blast
qed

section \<open>Properties of compare\_to\_captured.py\<close>

lemma check_color_consistency_types:
  "check_color_consistency re content captured = Inr issues \<Longrightarrow> i \<in> set issues
   \<Longrightarrow> i_type i = ''warning''"
  by (auto simp: check_color_consistency_def bind_exn_def Let_def split: sum.splits if_splits)

lemma check_component_classes_types:
  "i \<in> set (check_component_classes re content comps) \<Longrightarrow> i_type i = ''suggestion''"
  by (auto simp: check_component_classes_def Let_def split: if_splits)

lemma check_spacing_patterns_types:
  "check_spacing_patterns re content captured = Inr issues \<Longrightarrow> i \<in> set issues
   \<Longrightarrow> i_type i = ''info''"
  by (auto simp: check_spacing_patterns_def bind_exn_def split: sum.splits if_splits)

lemma check_color_consistency_returns:
  "good_hex_colors captured = Inr good \<Longrightarrow> \<exists>issues. check_color_consistency re content captured = Inr issues"
  by (simp add: check_color_consistency_def bind_exn_def Let_def)

lemma check_color_consistency_raises:
  "good_hex_colors captured = Inl e \<Longrightarrow> check_color_consistency re content captured = Inl e"
  by (simp add: check_color_consistency_def bind_exn_def)

lemma check_spacing_patterns_returns:
  "common_paddings captured = Inr common \<Longrightarrow> \<exists>issues. check_spacing_patterns re content captured = Inr issues"
  by (simp add: check_spacing_patterns_def bind_exn_def)

lemma check_spacing_patterns_raises:
  "common_paddings captured = Inl e \<Longrightarrow> check_spacing_patterns re content captured = Inl e"
  by (simp add: check_spacing_patterns_def bind_exn_def)

lemma filter_error_empty:
  assumes "\<forall>i \<in> set xs. i_type i \<in> {''warning'', ''suggestion'', ''info''}"
  shows "filter (\<lambda>i. i_type i = ''error'') xs = []"
  using assms by (induction xs) auto

text \<open>Whatever \<open>validate_file\<close> returns has passed.\<close>

lemma validate_file_result:
  assumes "validate_file re fs filepath captured_data = Inr r"
  shows "v_passed r \<and> errors (v_summary r) = 0
       \<and> (\<forall>i \<in> set (v_issues r). i_type i \<in> {''warning'', ''suggestion'', ''info''})"
proof -
  from assms obtain content a c where
    a: "check_color_consistency re content (dict_get captured_data ''colors'' (JDict [])) = Inr a"
    and c: "check_spacing_patterns re content (dict_get captured_data ''spacing'' (JDict [])) = Inr c"
    and r: "v_issues r = a @ check_component_classes re content
                (dict_get captured_data ''components'' (JDict [])) @ c"
       "v_passed r = (length (filter (\<lambda>i. i_type i = ''error'') (v_issues r)) = 0)"
       "errors (v_summary r) = length (filter (\<lambda>i. i_type i = ''error'') (v_issues r))"
    by (auto simp add: validate_file_def bind_exn_def Let_def split: sum.splits)
  have types: "\<forall>i \<in> set (v_issues r). i_type i \<in> {''warning'', ''suggestion'', ''info''}"
    using check_color_consistency_types [OF a] check_component_classes_types
      check_spacing_patterns_types [OF c] by (auto simp add: r(1))
  then have "filter (\<lambda>i. i_type i = ''error'') (v_issues r) = []"
    by (rule filter_error_empty)
  with types r show ?thesis by simp
qed

text \<open>It returns exactly when the read and the two sets of reference values do.\<close>

lemma validate_file_returns:
  assumes "fs_read_text fs filepath = Inr content"
    and "good_hex_colors (dict_get captured_data ''colors'' (JDict [])) = Inr good"
    and "common_paddings (dict_get captured_data ''spacing'' (JDict [])) = Inr common"
  shows "\<exists>r. validate_file re fs filepath captured_data = Inr r"
  using assms check_color_consistency_returns [OF assms(2), of re content]
    check_spacing_patterns_returns [OF assms(3), of re content]
  by (auto simp add: validate_file_def bind_exn_def Let_def)

lemma validate_file_raises_iff:
  "validate_file re fs filepath captured_data = Inl e \<longleftrightarrow>
     fs_read_text fs filepath = Inl e
   \<or> (\<exists>content. fs_read_text fs filepath = Inr content
        \<and> (good_hex_colors (dict_get captured_data ''colors'' (JDict [])) = Inl e
           \<or> (\<exists>good. good_hex_colors (dict_get captured_data ''colors'' (JDict [])) = Inr good)
             \<and> common_paddings (dict_get captured_data ''spacing'' (JDict [])) = Inl e))"
  by (auto simp add: validate_file_def bind_exn_def Let_def check_color_consistency_def
      check_spacing_patterns_def split: sum.splits)

text \<open>Reference data of the shape the extraction script writes raises nothing.\<close>

lemma hex_of_color_json: "hex_of (color_json c) = Inr [lower (fst (snd c))]"
  by (cases c) (simp add: hex_of_def color_json_def json_contains_def json_item_def
      json_lower_def bind_exn_def)

lemma map_exn_Inr:
  "(\<And>x. x \<in> set xs \<Longrightarrow> f x = Inr (g x)) \<Longrightarrow> map_exn f xs = Inr (map g xs)"
  by (induction xs) auto

lemma hexes_of_colors: "hexes_of (JList (map color_json cs)) = Inr (map (\<lambda>c. lower (fst (snd c))) cs)"
proof -
  have "map_exn hex_of (map color_json cs) = Inr (map (\<lambda>j. [lower (fst (snd j))]) cs)"
    by (induction cs) (simp_all add: hex_of_color_json)
  then show ?thesis
    by (simp add: hexes_of_def json_iter_def bind_exn_def concat_map_singleton comp_def)
qed

lemma good_hex_colors_extracted:
  "good_hex_colors (colors_json backgrounds texts borders shadows)
     = Inr (set (map (\<lambda>c. lower (fst (snd c))) (backgrounds @ texts @ borders)))"
  by (simp add: good_hex_colors_def colors_json_def json_get_def dict_get_def bind_exn_def
      hexes_of_colors)

lemma common_paddings_extracted:
  "\<exists>common. common_paddings (spacing_json paddings) = Inr common"
proof -
  have "map_exn unpack2 (map (\<lambda>(k, n). JList [JStr k, JInt n]) paddings)
          = Inr (map (\<lambda>(k, n). (JStr k, JInt n)) paddings)"
    by (induction paddings) (auto simp add: unpack2_def json_iter_def)
  then show ?thesis
    by (simp add: common_paddings_def spacing_json_def json_get_def dict_get_def bind_exn_def
        json_iter_def)
qed


text \<open>
  Claim C10, as amended. \<open>validate_file\<close> does not return for every file and every
  captured-data dictionary: it raises when the file cannot be read, and when the
  captured colours or paddings are not of the kind the checks walk (theorem
  \<open>validate_file_raises\<close>). For every file that can be read and every captured data from
  which the palette of \<open>check_color_consistency\<close> and the padding set of
  \<open>check_spacing_patterns\<close> can be built, it returns a result whose \<open>passed\<close> is true: the
  three checks emit issues of type \<open>warning\<close>, \<open>suggestion\<close> and \<open>info\<close> only, never \<open>error\<close>,
  so the error count is zero. Data of the shape \<open>extract_design_tokens.py\<close> writes is
  of that kind (lemmas \<open>good_hex_colors_extracted\<close> and \<open>common_paddings_extracted\<close>), and
  no result that \<open>validate_file\<close> returns has failed (lemma \<open>validate_file_result\<close>).
\<close>

theorem validate_file_passed:
  assumes "fs_read_text fs filepath = Inr content"
    and "good_hex_colors (dict_get captured_data ''colors'' (JDict [])) = Inr good"
    and "common_paddings (dict_get captured_data ''spacing'' (JDict [])) = Inr common"
  shows "\<exists>r. validate_file re fs filepath captured_data = Inr r
             \<and> v_passed r \<and> errors (v_summary r) = 0
             \<and> (\<forall>i \<in> set (v_issues r). i_type i \<in> {''warning'', ''suggestion'', ''info''})"
  using validate_file_returns [OF assms] validate_file_result by blast

text \<open>
  The claim as stated fails at three inputs: a file that does not exist (\<open>read_text\<close>
  raises), a list of paddings whose entry is the string \<open>16px\<close> and not a pair (the
  unpacking raises \<open>ValueError\<close>), and a colour whose \<open>hex\<close> is \<open>null\<close> (\<open>None\<close> has no \<open>lower\<close>).
  In each of them \<open>validate_file\<close> raises and returns no result.
\<close>

theorem validate_file_raises:
  "validate_file card_re card_fs ''Gone.tsx'' card_captured = Inl (no_such_file ''Gone.tsx'')
   \<and> validate_file card_re card_fs ''Card.tsx'' bare_paddings = Inl ValueError
   \<and> validate_file card_re card_fs ''Card.tsx'' null_hex = Inl AttributeError"
proof -
  have "fs_read_text card_fs ''Gone.tsx'' = Inl (no_such_file ''Gone.tsx'')"
    by (simp add: card_fs_def)
  then have 1: "validate_file card_re card_fs ''Gone.tsx'' card_captured
                  = Inl (no_such_file ''Gone.tsx'')"
    by (simp add: validate_file_raises_iff)
  have rd: "fs_read_text card_fs ''Card.tsx'' = Inr card_content"
    by (simp add: card_fs_def)
  have "good_hex_colors (dict_get bare_paddings ''colors'' (JDict [])) = Inr {}"
    by (simp add: bare_paddings_def dict_get_def good_hex_colors_def json_get_def bind_exn_def
        hexes_of_def json_iter_def)
  moreover have "common_paddings (dict_get bare_paddings ''spacing'' (JDict [])) = Inl ValueError"
    by (simp add: bare_paddings_def dict_get_def common_paddings_def json_get_def bind_exn_def
        json_iter_def unpack2_def)
  ultimately have 2: "validate_file card_re card_fs ''Card.tsx'' bare_paddings = Inl ValueError"
    using rd by (simp add: validate_file_raises_iff)
  have "good_hex_colors (dict_get null_hex ''colors'' (JDict [])) = Inl AttributeError"
    by (simp add: null_hex_def dict_get_def good_hex_colors_def json_get_def bind_exn_def
        hexes_of_def json_iter_def hex_of_def json_contains_def json_item_def json_lower_def)
  then have 3: "validate_file card_re card_fs ''Card.tsx'' null_hex = Inl AttributeError"
    using rd by (simp add: validate_file_raises_iff)
  from 1 2 3 show ?thesis by simp
qed

theorem validate_file_passed_witness:
  "fs_read_text card_fs ''Card.tsx'' = Inr card_content
   \<and> good_hex_colors (dict_get card_captured ''colors'' (JDict [])) = Inr {''#12121a''}
   \<and> common_paddings (dict_get card_captured ''spacing'' (JDict [])) = Inr {JStr ''16px''}
   \<and> (\<exists>r. validate_file card_re card_fs ''Card.tsx'' card_captured = Inr r
          \<and> v_passed r \<and> errors (v_summary r) = 0
          \<and> map i_type (v_issues r) = [''info''])"
proof -
  have rd: "fs_read_text card_fs ''Card.tsx'' = Inr card_content"
    by (simp add: card_fs_def)
  have low: "lower ''#12121A'' = ''#12121a''"
    by code_simp
  have good: "good_hex_colors (dict_get card_captured ''colors'' (JDict [])) = Inr {''#12121a''}"
    by (simp add: card_captured_def dict_get_def good_hex_colors_extracted low)
  have common: "common_paddings (dict_get card_captured ''spacing'' (JDict []))
                  = Inr {JStr ''16px''}"
    by (simp add: card_captured_def dict_get_def common_paddings_def spacing_json_def
        json_get_def bind_exn_def json_iter_def unpack2_def contains_def)
  have sp: "check_spacing_patterns card_re card_content (dict_get card_captured ''spacing'' (JDict [])) =
              Inr [\<lparr>i_type = ''info'', i_line = 1,
                i_issue = ''Uncommon padding value'', i_found = ''p-5'',
                i_suggestion = ''Common BOSS paddings: p-2, p-3, p-4, p-6, p-8''\<rparr>]"
    by (simp add: check_spacing_patterns_def common bind_exn_def card_re_def card_content_def
        count_newlines_def)
  have co: "check_color_consistency card_re card_content (dict_get card_captured ''colors'' (JDict [])) = Inr []"
    by (simp add: check_color_consistency_def good bind_exn_def card_re_def
        extract_colors_from_code_def
        extract_tailwind_colors_def matches_by_line_def padding_pattern_def hex_pattern_def
        tailwind_pattern_def raw_def)
  have cc: "check_component_classes card_re card_content m = []" for m
    by (simp add: check_component_classes_def card_re_def padding_pattern_def
        button_pattern_def raw_def)
  from validate_file_passed [OF rd good common, of card_re]
  show ?thesis
    using rd good common by (auto simp add: validate_file_def bind_exn_def Let_def sp co cc)
qed

section \<open>Properties of the two validators\<close>

subsection \<open>A path that does not exist\<close>

lemma path_exists_False_iff:
  "path_exists fs p = Inr False \<longleftrightarrow>
     (\<exists>n s. fs_stat fs p = Inl (OSError n s) \<and> ignored_errno n) \<or> fs_stat fs p = Inl ValueError"
  by (auto simp add: path_exists_def split: sum.splits exn.splits)


lemma path_exists_raises_iff:
  "path_exists fs p = Inl e \<longleftrightarrow>
     fs_stat fs p = Inl e \<and> e \<noteq> ValueError \<and> (\<forall>n s. e = OSError n s \<longrightarrow> \<not> ignored_errno n)"
  by (auto simp add: path_exists_def split: sum.splits exn.splits)










subsection \<open>One scan of one file\<close>

text \<open>Lines: splitting at a newline, and numbering, go through concatenation.\<close>

lemma split_lines_not_Nil: "split_lines s \<noteq> []"
  by (induction s) (auto split: list.splits)

lemma split_lines_append:
  "split_lines (a @ CHR 0x0A # b) = split_lines a @ split_lines b"
proof (induction a)
  case Nil
  show ?case by simp
next
  case (Cons c cs)
  show ?case
  proof (cases "c = CHR 0x0A")
    case True
    with Cons show ?thesis by simp
  next
    case False
    obtain l ls where l: "split_lines cs = l # ls"
      using split_lines_not_Nil [of cs] by (cases "split_lines cs") auto
    with False Cons show ?thesis by simp
  qed
qed

lemma enumerate1_enumerate: "enumerate1 xs = enumerate 1 xs"
  by (simp add: enumerate1_def enumerate_eq_zip del: upt_Suc)

lemma enumerate_shift:
  "enumerate (n + k) xs = map (\<lambda>(i, l). (i + k, l)) (enumerate n xs)"
  by (induction xs arbitrary: n) (simp_all add: add_Suc [symmetric] del: add_Suc)

lemma enumerate1_append:
  "enumerate1 (xs @ ys) = enumerate1 xs @ map (\<lambda>(i, l). (i + length xs, l)) (enumerate1 ys)"
  using enumerate_shift [of 1 "length xs" ys]
  by (simp add: enumerate1_enumerate enumerate_append_eq)

lemma sorted_concat_enumerate:
  assumes "\<And>i l v. v \<in> set (g (i, l)) \<Longrightarrow> f v = i"
  shows "sorted (map f (concat (map g (enumerate n xs))))
       \<and> (\<forall>v \<in> set (concat (map g (enumerate n xs))). n \<le> f v)"
proof (induction xs arbitrary: n)
  case Nil
  show ?case by simp
next
  case (Cons x xs)
  have here: "\<forall>v \<in> set (g (n, x)). f v = n"
    using assms by blast
  then have "sorted (map f (g (n, x)))"
    by (simp add: sorted_wrt_iff_nth_less sorted_wrt_map)
  with here Cons [of "Suc n"] show ?case
    by (fastforce simp add: sorted_append)
qed

text \<open>One line: the line number goes into the \<open>line\<close> field and nowhere else.\<close>

lemma dgts_scan_line_line:
  "v \<in> set (dgts_scan_line re filepath (i, l)) \<Longrightarrow> vi_line v = i"
  by (auto simp add: dgts_scan_line_def split: if_splits)

lemma zt_scan_line_line:
  "v \<in> set (zt_scan_line re patterns filepath (i, l)) \<Longrightarrow> zv_line v = i"
  by (auto simp add: zt_scan_line_def split: if_splits)

lemma dgts_scan_line_shift:
  "dgts_scan_line re filepath (i + n, l)
     = map (\<lambda>v. v\<lparr>vi_line := vi_line v + n\<rparr>) (dgts_scan_line re filepath (i, l))"
  by (simp add: dgts_scan_line_def map_concat comp_def split_def if_distrib [of "map _"]
      cong: if_cong)

lemma zt_scan_line_shift:
  "zt_scan_line re patterns filepath (i + n, l)
     = map (\<lambda>v. v\<lparr>zv_line := zv_line v + n\<rparr>) (zt_scan_line re patterns filepath (i, l))"
  by (simp add: zt_scan_line_def map_concat comp_def split_def if_distrib [of "map _"]
      cong: if_cong)

lemma dgts_scan_lines_append:
  "concat (map (dgts_scan_line re filepath) (enumerate1 (xs @ ys)))
     = concat (map (dgts_scan_line re filepath) (enumerate1 xs))
       @ map (\<lambda>v. v\<lparr>vi_line := vi_line v + length xs\<rparr>)
           (concat (map (dgts_scan_line re filepath) (enumerate1 ys)))"
  by (simp add: enumerate1_append map_concat comp_def split_def dgts_scan_line_shift)

lemma zt_scan_lines_append:
  "concat (map (zt_scan_line re patterns filepath) (enumerate1 (xs @ ys)))
     = concat (map (zt_scan_line re patterns filepath) (enumerate1 xs))
       @ map (\<lambda>v. v\<lparr>zv_line := zv_line v + length xs\<rparr>)
           (concat (map (zt_scan_line re patterns filepath) (enumerate1 ys)))"
  by (simp add: enumerate1_append map_concat comp_def split_def zt_scan_line_shift)

text \<open>One scan: what it returns and what it leaves.\<close>

lemma dgts_scan_file_world:
  "w_fs (snd (dgts_scan_file re filepath w)) = w_fs w
   \<and> w_log (snd (dgts_scan_file re filepath w)) =
       w_log w @ Read_text filepath #
         (case fs_read_text (w_fs w) filepath of
            Inl e \<Rightarrow> [Stderr (''Warning: Could not scan '' @ filepath @ '': '' @ exn_str e)]
          | Inr content \<Rightarrow> [])"
  by (simp add: dgts_scan_file_def emit_def split: sum.splits)

lemma zt_scan_file_world:
  "w_fs (snd (zt_scan_file re filepath w)) = w_fs w
   \<and> w_log (snd (zt_scan_file re filepath w)) =
       w_log w @
         (case get_language filepath of
            None \<Rightarrow> []
          | Some lang \<Rightarrow> Read_text filepath #
              (case fs_read_text (w_fs w) filepath of
                 Inl e \<Rightarrow> [Stderr (''Warning: Could not scan '' @ filepath @ '': '' @ exn_str e)]
               | Inr content \<Rightarrow> []))"
  by (simp add: zt_scan_file_def emit_def Let_def split: sum.splits option.splits)

lemma dgts_scan_file_same:
  "fs_read_text (w_fs w') filepath = fs_read_text (w_fs w) filepath
   \<Longrightarrow> fst (dgts_scan_file re filepath w') = fst (dgts_scan_file re filepath w)"
  by (simp add: dgts_scan_file_def split: sum.splits)

lemma zt_scan_file_same:
  "fs_read_text (w_fs w') filepath = fs_read_text (w_fs w) filepath
   \<Longrightarrow> fst (zt_scan_file re filepath w') = fst (zt_scan_file re filepath w)"
  by (simp add: zt_scan_file_def Let_def split: sum.splits option.splits)

lemma dgts_scan_file_sorted: "sorted (map vi_line (fst (dgts_scan_file re filepath w)))"
  using sorted_concat_enumerate [of "dgts_scan_line re filepath" vi_line 1]
    dgts_scan_line_line
  by (simp add: dgts_scan_file_def enumerate1_enumerate split: sum.splits)

lemma zt_scan_file_sorted: "sorted (map zv_line (fst (zt_scan_file re filepath w)))"
  using sorted_concat_enumerate [of "zt_scan_line re _ filepath" zv_line 1]
    zt_scan_line_line
  by (simp add: zt_scan_file_def Let_def enumerate1_enumerate split: sum.splits option.splits)

lemma dgts_scan_file_lines:
  assumes "fs_read_text (w_fs w) filepath = Inr (a @ CHR 0x0A # b)"
    and "fs_read_text (w_fs wa) filepath = Inr a"
    and "fs_read_text (w_fs wb) filepath = Inr b"
  shows "fst (dgts_scan_file re filepath w)
           = fst (dgts_scan_file re filepath wa)
             @ map (\<lambda>v. v\<lparr>vi_line := vi_line v + length (split_lines a)\<rparr>)
                 (fst (dgts_scan_file re filepath wb))"
  using assms by (simp add: dgts_scan_file_def split_lines_append dgts_scan_lines_append)

lemma zt_scan_file_lines:
  assumes "fs_read_text (w_fs w) filepath = Inr (a @ CHR 0x0A # b)"
    and "fs_read_text (w_fs wa) filepath = Inr a"
    and "fs_read_text (w_fs wb) filepath = Inr b"
  shows "fst (zt_scan_file re filepath w)
           = fst (zt_scan_file re filepath wa)
             @ map (\<lambda>v. v\<lparr>zv_line := zv_line v + length (split_lines a)\<rparr>)
                 (fst (zt_scan_file re filepath wb))"
  using assms
  by (simp add: zt_scan_file_def Let_def split_lines_append zt_scan_lines_append
      split: option.splits)


text \<open>
  Claim C8. A scan takes the world as it is, the file system and the record of all that
  was done before, and returns its violations with the world it leaves; the input of a
  scan is the path, and the content is what reading that path gives. The per-file scans
  are single-pass and stateless:
  \<^item> one scan leaves the file system as it was and adds to the record one read of the
    file, and one warning when the read raises: it reads once, does not read again after
    a failure, and does nothing else (a file whose extension names no language is not
    read by \<open>zero-tolerance-validator.py\<close>);
  \<^item> a second invocation in the world the first one left returns the same list;
  \<^item> two invocations in any two worlds return identical lists when reading the path
    gives the same in both, whatever was done before and whatever else the file systems
    hold;
  \<^item> the pass is over the lines in order, and no line's result depends on another line:
    the violations come by ascending line number, and the scan of \<open>a\<close>, a newline and \<open>b\<close>
    is the scan of \<open>a\<close> followed by the scan of \<open>b\<close> with its line numbers moved by the
    number of lines of \<open>a\<close>.
\<close>

theorem scan_file_deterministic:
  "w_fs (snd (dgts_scan_file re filepath w)) = w_fs w
   \<and> w_log (snd (dgts_scan_file re filepath w)) =
       w_log w @ Read_text filepath #
         (case fs_read_text (w_fs w) filepath of
            Inl e \<Rightarrow> [Stderr (''Warning: Could not scan '' @ filepath @ '': '' @ exn_str e)]
          | Inr content \<Rightarrow> [])
   \<and> fst (dgts_scan_file re filepath (snd (dgts_scan_file re filepath w)))
       = fst (dgts_scan_file re filepath w)
   \<and> (fs_read_text (w_fs w') filepath = fs_read_text (w_fs w) filepath
        \<longrightarrow> fst (dgts_scan_file re filepath w') = fst (dgts_scan_file re filepath w))
   \<and> sorted (map vi_line (fst (dgts_scan_file re filepath w)))
   \<and> (fs_read_text (w_fs w) filepath = Inr (a @ CHR 0x0A # b)
        \<and> fs_read_text (w_fs wa) filepath = Inr a \<and> fs_read_text (w_fs wb) filepath = Inr b
        \<longrightarrow> fst (dgts_scan_file re filepath w)
              = fst (dgts_scan_file re filepath wa)
                @ map (\<lambda>v. v\<lparr>vi_line := vi_line v + length (split_lines a)\<rparr>)
                    (fst (dgts_scan_file re filepath wb)))
   \<and> w_fs (snd (zt_scan_file re filepath w)) = w_fs w
   \<and> w_log (snd (zt_scan_file re filepath w)) =
       w_log w @
         (case get_language filepath of
            None \<Rightarrow> []
          | Some lang \<Rightarrow> Read_text filepath #
              (case fs_read_text (w_fs w) filepath of
                 Inl e \<Rightarrow> [Stderr (''Warning: Could not scan '' @ filepath @ '': '' @ exn_str e)]
               | Inr content \<Rightarrow> []))
   \<and> fst (zt_scan_file re filepath (snd (zt_scan_file re filepath w)))
       = fst (zt_scan_file re filepath w)
   \<and> (fs_read_text (w_fs w') filepath = fs_read_text (w_fs w) filepath
        \<longrightarrow> fst (zt_scan_file re filepath w') = fst (zt_scan_file re filepath w))
   \<and> sorted (map zv_line (fst (zt_scan_file re filepath w)))
   \<and> (fs_read_text (w_fs w) filepath = Inr (a @ CHR 0x0A # b)
        \<and> fs_read_text (w_fs wa) filepath = Inr a \<and> fs_read_text (w_fs wb) filepath = Inr b
        \<longrightarrow> fst (zt_scan_file re filepath w)
              = fst (zt_scan_file re filepath wa)
                @ map (\<lambda>v. v\<lparr>zv_line := zv_line v + length (split_lines a)\<rparr>)
                    (fst (zt_scan_file re filepath wb)))"
proof -
  have "fst (dgts_scan_file re filepath (snd (dgts_scan_file re filepath w)))
          = fst (dgts_scan_file re filepath w)"
    by (rule dgts_scan_file_same) (simp add: dgts_scan_file_world)
  moreover have "fst (zt_scan_file re filepath (snd (zt_scan_file re filepath w)))
          = fst (zt_scan_file re filepath w)"
    by (rule zt_scan_file_same) (simp add: zt_scan_file_world)
  ultimately show ?thesis
    using dgts_scan_file_world [of re filepath w] zt_scan_file_world [of re filepath w]
      dgts_scan_file_same [of w' filepath w re] zt_scan_file_same [of w' filepath w re]
      dgts_scan_file_sorted [of re filepath w] zt_scan_file_sorted [of re filepath w]
      dgts_scan_file_lines [of w filepath a b wa wb re]
      zt_scan_file_lines [of w filepath a b wa wb re]
    by blast
qed


lemma dgts_scan_file_head:
  "fst (dgts_scan_file literal_re ''/repo/src/util.ts''
          (fresh (only_file ''/repo/src/util.ts'' ''// @ts-ignore'') :: unit world)) = []"
  by code_simp

lemma dgts_scan_file_tail:
  "fst (dgts_scan_file literal_re ''/repo/src/util.ts''
          (fresh (only_file ''/repo/src/util.ts'' ''// FIXME: typed later'') :: unit world))
     = [\<lparr>vi_file = ''/repo/src/util.ts'', vi_line = 1, vi_category = ''feature_faking'',
         vi_pattern = ''FIXME:'', vi_message = ''FIXME marker'',
         vi_content = ''// FIXME: typed later''\<rparr>]"
  by code_simp

lemma zt_scan_file_head:
  "fst (zt_scan_file literal_re ''/repo/src/util.ts''
          (fresh (only_file ''/repo/src/util.ts'' ''// @ts-ignore'') :: unit world))
     = [\<lparr>zv_file = ''/repo/src/util.ts'', zv_line = 1, zv_category = ''type_safety'',
         zv_message = ''@ts-ignore comment - fix the type error'',
         zv_content = ''// @ts-ignore'', zv_severity = ''CRITICAL''\<rparr>]"
  by code_simp

lemma zt_scan_file_tail:
  "fst (zt_scan_file literal_re ''/repo/src/util.ts''
          (fresh (only_file ''/repo/src/util.ts'' ''// FIXME: typed later'') :: unit world)) = []"
  by code_simp

lemma get_language_util: "get_language ''/repo/src/util.ts'' = Some ''typescript''"
  by code_simp

theorem scan_file_deterministic_witness:
  "fs_read_text (w_fs (emit [Rglob ''/repo/src'' ''*.ts''] (fresh util_fs_later) :: unit world))
       ''/repo/src/util.ts''
     = fs_read_text (w_fs (fresh util_fs :: unit world)) ''/repo/src/util.ts''
   \<and> fs_read_text (w_fs (fresh util_fs :: unit world)) ''/repo/src/util.ts''
     = Inr (''// @ts-ignore'' @ CHR 0x0A # ''// FIXME: typed later'')
   \<and> fs_read_text (w_fs (fresh (only_file ''/repo/src/util.ts'' ''// @ts-ignore'') :: unit world))
       ''/repo/src/util.ts'' = Inr ''// @ts-ignore''
   \<and> fs_read_text
       (w_fs (fresh (only_file ''/repo/src/util.ts'' ''// FIXME: typed later'') :: unit world))
       ''/repo/src/util.ts'' = Inr ''// FIXME: typed later''
   \<and> fst (dgts_scan_file literal_re ''/repo/src/util.ts''
            (emit [Rglob ''/repo/src'' ''*.ts''] (fresh util_fs_later) :: unit world))
     = [\<lparr>vi_file = ''/repo/src/util.ts'', vi_line = 2, vi_category = ''feature_faking'',
         vi_pattern = ''FIXME:'', vi_message = ''FIXME marker'',
         vi_content = ''// FIXME: typed later''\<rparr>]
   \<and> fst (zt_scan_file literal_re ''/repo/src/util.ts''
            (emit [Rglob ''/repo/src'' ''*.ts''] (fresh util_fs_later) :: unit world))
     = [\<lparr>zv_file = ''/repo/src/util.ts'', zv_line = 1, zv_category = ''type_safety'',
         zv_message = ''@ts-ignore comment - fix the type error'',
         zv_content = ''// @ts-ignore'', zv_severity = ''CRITICAL''\<rparr>]
   \<and> w_log (snd (dgts_scan_file literal_re ''/repo/src/util.ts'' (fresh util_fs :: unit world)))
     = [Read_text ''/repo/src/util.ts'']
   \<and> w_log (snd (zt_scan_file literal_re ''/repo/src/util.ts'' (fresh util_fs :: unit world)))
     = [Read_text ''/repo/src/util.ts'']"
proof -
  let ?p = "''/repo/src/util.ts''"
  let ?w = "fresh util_fs :: unit world"
  let ?w' = "emit [Rglob ''/repo/src'' ''*.ts''] (fresh util_fs_later) :: unit world"
  let ?wa = "fresh (only_file ?p ''// @ts-ignore'') :: unit world"
  let ?wb = "fresh (only_file ?p ''// FIXME: typed later'') :: unit world"
  have rd: "fs_read_text (w_fs ?w) ?p = Inr (''// @ts-ignore'' @ CHR 0x0A # ''// FIXME: typed later'')"
    by (simp add: fresh_def util_fs_def util_content_def)
  have same: "fs_read_text (w_fs ?w') ?p = fs_read_text (w_fs ?w) ?p"
    by (simp add: fresh_def emit_def util_fs_def util_fs_later_def)
  have ra: "fs_read_text (w_fs ?wa) ?p = Inr ''// @ts-ignore''"
    by (simp add: fresh_def only_file_def)
  have rb: "fs_read_text (w_fs ?wb) ?p = Inr ''// FIXME: typed later''"
    by (simp add: fresh_def only_file_def)
  have n: "length (split_lines ''// @ts-ignore'') = 1"
    by simp
  have l: "w_log ?w = []"
    by (simp add: fresh_def)
  from scan_file_deterministic [of literal_re ?p ?w ?w' "''// @ts-ignore''"
      "''// FIXME: typed later''" ?wa ?wb]
  show ?thesis
    using rd same ra rb
    by (simp add: dgts_scan_file_head dgts_scan_file_tail zt_scan_file_head zt_scan_file_tail
        get_language_util n l)
qed

section \<open>Properties of the session orchestrator\<close>

lemma step_at_attempt: "at_attempt (state m) seq n \<Longrightarrow> step cfg col m = attempt col seq n m"
  by (auto simp: at_attempt_def step_def)

lemma run_unroll: "\<not> is_terminal (state m) \<Longrightarrow> run cfg col m = run cfg col (step cfg col m)"
  by (subst run.simps) simp

lemma run_terminal: "is_terminal (state m) \<Longrightarrow> run cfg col m = Some m"
  by (subst run.simps) simp

lemma at_attempt_not_terminal: "at_attempt (state m) seq n \<Longrightarrow> \<not> is_terminal (state m)"
  by (auto simp: at_attempt_def is_terminal_def)

lemma failure_cases:
  "is_failure r \<Longrightarrow> (\<exists>reason code. r = Some (Failed reason code)) \<or> r = Some TimedOut"
  by (auto simp: is_failure_def split: option.splits session_outcome.splits)

lemma attempt_failure_retry:
  assumes "is_failure (run_attempt col seq n)" "n < 2"
  shows "attempt col seq n m =
           m\<lparr>events := events m @ [Spawn seq n],
             sessionsAttempted := sessionsAttempted m + (if n = 0 then 1 else 0),
             state := RETRY seq (n + 1)\<rparr>"
  using failure_cases [OF assms(1)] assms(2)
  by (auto simp: attempt_def Let_def retry_cap_def)

lemma attempt_failure_advance:
  assumes "is_failure (run_attempt col seq n)" "2 \<le> n"
  shows "attempt col seq n m =
           m\<lparr>events := events m @ [Spawn seq n],
             sessionsAttempted := sessionsAttempted m + (if n = 0 then 1 else 0),
             sessionsFailed := sessionsFailed m + 1,
             state := ADVANCED (seq + 1),
             advancedCount := advancedCount m + 1\<rparr>"
  using failure_cases [OF assms(1)] assms(2)
  by (auto simp: attempt_def Let_def retry_cap_def advance_def)

lemma retry_ok_step: "retry_ok (state m) \<Longrightarrow> retry_ok (state (step cfg col m))"
  by (auto simp: retry_ok_def step_def attempt_def after_advance_def advance_def Let_def
      retry_cap_def
      split: orch_state.splits option.splits session_outcome.splits if_splits)

lemma retry_ok_reachable: "retry_ok (state ((step cfg col ^^ k) initial))"
  by (induction k) (simp_all add: retry_ok_step, simp add: retry_ok_def initial_def)

text \<open>
  Claim C3. The retry count of a sequence number never exceeds 2 in a state the
  orchestrator reaches; a \<open>Failed\<close> or \<open>TimedOut\<close> outcome at retry count below 2 re-runs
  the same sequence number with the count one higher and without an advance, and at
  retry count 2 the orchestrator advances to the next sequence number.
\<close>

theorem retry_bounded:
  assumes "at_attempt (state m) seq n" "is_failure (run_attempt col seq n)"
  shows "retry_count (state ((step cfg col ^^ k) initial)) \<le> 2
       \<and> (n < 2 \<longrightarrow> state (step cfg col m) = RETRY seq (n + 1)
                    \<and> advancedCount (step cfg col m) = advancedCount m)
       \<and> (n = 2 \<longrightarrow> state (step cfg col m) = ADVANCED (seq + 1)
                    \<and> advancedCount (step cfg col m) = advancedCount m + 1)"
proof -
  have "retry_count s \<le> 2" if "retry_ok s" for s
    using that by (auto simp: retry_ok_def retry_count_def split: orch_state.splits)
  then have "retry_count (state ((step cfg col ^^ k) initial)) \<le> 2"
    using retry_ok_reachable by blast
  moreover have "step cfg col m = attempt col seq n m"
    using assms(1) by (rule step_at_attempt)
  ultimately show ?thesis
    using attempt_failure_retry [OF assms(2), of m] attempt_failure_advance [OF assms(2), of m]
    by auto
qed

lemma always_failsD: "always_fails col \<Longrightarrow> is_failure (run_attempt col seq n)"
  by (simp add: always_fails_def)

lemma failed_session:
  assumes "always_fails col" "state m = RUNNING seq" "\<not> completionFlag m"
  shows "\<exists>m'. run cfg col m = run cfg col m'
            \<and> state m' = (if seq + 1 = maxSessions cfg then TERMINAL EXHAUSTED else RUNNING (seq + 1))
            \<and> advancedCount m' = advancedCount m + 1
            \<and> sessionsCompleted m' = sessionsCompleted m
            \<and> \<not> completionFlag m'"
proof -
  note f = always_failsD [OF assms(1)]
  define m1 where "m1 = step cfg col m"
  define m2 where "m2 = step cfg col m1"
  define m3 where "m3 = step cfg col m2"
  define m4 where "m4 = step cfg col m3"
  have s1: "state m1 = RETRY seq 1" "advancedCount m1 = advancedCount m"
    "sessionsCompleted m1 = sessionsCompleted m" "\<not> completionFlag m1"
    using assms(2,3) attempt_failure_retry [OF f [of seq 0], of m]
    by (simp_all add: m1_def step_def)
  have s2: "state m2 = RETRY seq 2" "advancedCount m2 = advancedCount m"
    "sessionsCompleted m2 = sessionsCompleted m" "\<not> completionFlag m2"
    using s1 attempt_failure_retry [OF f [of seq 1], of m1]
    by (simp_all add: m2_def step_def)
  have s3: "state m3 = ADVANCED (seq + 1)" "advancedCount m3 = advancedCount m + 1"
    "sessionsCompleted m3 = sessionsCompleted m" "\<not> completionFlag m3"
    using s2 attempt_failure_advance [OF f [of seq 2], of m2]
    by (simp_all add: m3_def step_def)
  have s4: "state m4 = (if seq + 1 = maxSessions cfg then TERMINAL EXHAUSTED else RUNNING (seq + 1))"
    "advancedCount m4 = advancedCount m + 1" "sessionsCompleted m4 = sessionsCompleted m"
    "\<not> completionFlag m4"
    using s3 by (simp_all add: m4_def step_def after_advance_def Let_def)
  have "run cfg col m = run cfg col m1"
    unfolding m1_def by (rule run_unroll) (simp add: assms(2) is_terminal_def)
  also have "\<dots> = run cfg col m2"
    unfolding m2_def by (rule run_unroll) (simp add: s1 is_terminal_def)
  also have "\<dots> = run cfg col m3"
    unfolding m3_def by (rule run_unroll) (simp add: s2 is_terminal_def)
  also have "\<dots> = run cfg col m4"
    unfolding m4_def by (rule run_unroll) (simp add: s3 is_terminal_def)
  finally show ?thesis using s4 by blast
qed

lemma failed_run:
  assumes "always_fails col"
  shows "state m = RUNNING seq \<Longrightarrow> \<not> completionFlag m \<Longrightarrow> seq < maxSessions cfg
         \<Longrightarrow> d = maxSessions cfg - seq \<Longrightarrow>
         \<exists>m'. run cfg col m = Some m' \<and> state m' = TERMINAL EXHAUSTED
             \<and> advancedCount m' = advancedCount m + d
             \<and> sessionsCompleted m' = sessionsCompleted m"
proof (induction d arbitrary: m seq)
  case 0
  then show ?case by simp
next
  case (Suc d)
  from failed_session [OF assms Suc.prems(1,2), of cfg] obtain m1 where m1:
    "run cfg col m = run cfg col m1"
    "state m1 = (if seq + 1 = maxSessions cfg then TERMINAL EXHAUSTED else RUNNING (seq + 1))"
    "advancedCount m1 = advancedCount m + 1"
    "sessionsCompleted m1 = sessionsCompleted m"
    "\<not> completionFlag m1"
    by blast
  show ?case
  proof (cases "seq + 1 = maxSessions cfg")
    case True
    then have "d = 0" using Suc.prems(4) by simp
    moreover have st: "state m1 = TERMINAL EXHAUSTED" using m1(2) True by simp
    moreover have "run cfg col m1 = Some m1"
      by (rule run_terminal) (simp add: st is_terminal_def)
    ultimately show ?thesis using m1(1,3,4) by simp
  next
    case False
    then have "state m1 = RUNNING (seq + 1)" "\<not> completionFlag m1" "seq + 1 < maxSessions cfg"
      "d = maxSessions cfg - (seq + 1)"
      using m1(2,5) Suc.prems(3,4) by simp_all
    from Suc.IH [OF this] m1 show ?thesis by simp
  qed
qed

text \<open>
  Claim C1. For every positive \<open>maxSessions\<close>, when every attempt fails, the loop
  terminates in \<open>TERMINAL EXHAUSTED\<close> after exactly \<open>maxSessions\<close> advances, with no
  session completed.
\<close>

theorem all_fail_exhausts:
  assumes "0 < maxSessions cfg" "always_fails col"
  shows "\<exists>m. run cfg col initial = Some m
           \<and> state m = TERMINAL EXHAUSTED
           \<and> advancedCount m = maxSessions cfg
           \<and> sessionsCompleted m = 0"
proof -
  define m0 where "m0 = step cfg col initial"
  have m0: "state m0 = RUNNING 0" "advancedCount m0 = 0" "sessionsCompleted m0 = 0"
    "\<not> completionFlag m0"
    by (simp_all add: m0_def step_def initial_def)
  have "run cfg col initial = run cfg col m0"
    unfolding m0_def by (rule run_unroll) (simp add: initial_def is_terminal_def)
  with failed_run [OF assms(2) m0(1,4) assms(1) refl] m0 show ?thesis by simp
qed

lemma run_funpow:
  "(\<And>i. i < k \<Longrightarrow> \<not> is_terminal (state ((step cfg col ^^ i) m)))
   \<Longrightarrow> run cfg col m = run cfg col ((step cfg col ^^ k) m)"
proof (induction k)
  case 0
  then show ?case by simp
next
  case (Suc k)
  then have "run cfg col m = run cfg col ((step cfg col ^^ k) m)" by simp
  also have "\<dots> = run cfg col (step cfg col ((step cfg col ^^ k) m))"
    by (rule run_unroll) (simp add: Suc.prems)
  finally show ?case by simp
qed

lemma always_fails_failing_col: "always_fails failing_col"
  by (simp add: always_fails_def failing_col_def is_failure_def)

theorem all_fail_exhausts_witness:
  "0 < maxSessions cfg3 \<and> always_fails failing_col
   \<and> (\<exists>m. run cfg3 failing_col initial = Some m \<and> state m = TERMINAL EXHAUSTED
          \<and> advancedCount m = 3 \<and> sessionsCompleted m = 0)"
proof -
  have h: "0 < maxSessions cfg3" by (simp add: cfg3_def)
  have n: "maxSessions cfg3 = 3" by (simp add: cfg3_def)
  from all_fail_exhausts [OF h always_fails_failing_col]
  show ?thesis using h always_fails_failing_col by (simp add: n)
qed

lemma failing_three: "state ((step cfg3 failing_col ^^ 3) initial) = RETRY 0 2"
  by code_simp

theorem retry_bounded_witness:
  "at_attempt (state ((step cfg3 failing_col ^^ 3) initial)) 0 2
   \<and> is_failure (run_attempt failing_col 0 2)
   \<and> retry_count (state ((step cfg3 failing_col ^^ 3) initial)) = 2
   \<and> state (step cfg3 failing_col ((step cfg3 failing_col ^^ 3) initial)) = ADVANCED 1"
proof -
  have a: "at_attempt (state ((step cfg3 failing_col ^^ 3) initial)) 0 2"
    by (simp add: failing_three at_attempt_def)
  have f: "is_failure (run_attempt failing_col 0 2)"
    by (simp add: failing_col_def is_failure_def)
  from retry_bounded [OF a f, where cfg = cfg3 and k = 3] show ?thesis
    using a f by (simp add: failing_three retry_count_def)
qed

text \<open>
  The scenario of section 8 on the model: sequence number 0 fails twice and then
  succeeds, sequence number 1 reports the work complete. The run ends in \<open>ALL_PASSED\<close>
  with two sessions attempted of three, two checkpoints, and no attempt after the one
  that reported completion.
\<close>

lemma scenario_steps:
  "(step cfg3 scenario_col ^^ 7) initial =
     \<lparr>state = TERMINAL ALL_PASSED, sessionsAttempted = 2, sessionsCompleted = 2,
      sessionsFailed = 0, completionFlag = True, runWarnings = [], advancedCount = 2,
      events = [Spawn 0 0, Spawn 0 1, Spawn 0 2, Reap, Checkpoint 1,
                Spawn 1 0, Reap, Checkpoint 2]\<rparr>"
  by code_simp

lemma scenario_running:
  "i < 7 \<Longrightarrow> \<not> is_terminal (state ((step cfg3 scenario_col ^^ i) initial))"
proof -
  assume "i < 7"
  then consider "i = 0" | "i = 1" | "i = 2" | "i = 3" | "i = 4" | "i = 5" | "i = 6"
    by linarith
  then show ?thesis
  proof cases
    case 1 then show ?thesis by (simp add: initial_def is_terminal_def)
  next
    case 2 show ?thesis unfolding 2 by code_simp
  next
    case 3 show ?thesis unfolding 3 by code_simp
  next
    case 4 show ?thesis unfolding 4 by code_simp
  next
    case 5 show ?thesis unfolding 5 by code_simp
  next
    case 6 show ?thesis unfolding 6 by code_simp
  next
    case 7 show ?thesis unfolding 7 by code_simp
  qed
qed

lemma scenario_section_8:
  "run cfg3 scenario_col initial =
     Some \<lparr>state = TERMINAL ALL_PASSED, sessionsAttempted = 2, sessionsCompleted = 2,
           sessionsFailed = 0, completionFlag = True, runWarnings = [], advancedCount = 2,
           events = [Spawn 0 0, Spawn 0 1, Spawn 0 2, Reap, Checkpoint 1,
                     Spawn 1 0, Reap, Checkpoint 2]\<rparr>"
proof -
  have "run cfg3 scenario_col initial = run cfg3 scenario_col ((step cfg3 scenario_col ^^ 7) initial)"
    by (rule run_funpow) (rule scenario_running)
  also have "\<dots> = Some ((step cfg3 scenario_col ^^ 7) initial)"
    by (rule run_terminal) (simp add: scenario_steps is_terminal_def)
  finally show ?thesis by (simp only: scenario_steps)
qed

text \<open>
  The preconditions of section 6 on the model: when the workspace or the work manifest
  is missing, the orchestrator returns an error and the counters of a run that never
  started, with no session attempted and nothing spawned.
\<close>

lemma orchestrate_precondition:
  assumes "\<not> present (workspace cfg) \<or> \<not> present (manifest cfg)"
  shows "\<exists>err m. orchestrate present cfg col = Some (Some err, m)
           \<and> state m = TERMINAL FATAL \<and> sessionsAttempted m = 0 \<and> events m = []"
  using assms by (auto simp add: orchestrate_def initial_def)

end
